theory Spec2Isabelle
  imports Main
begin

section \<open>The DOM as the resolver sees it\<close>

text \<open>
  The resolver (\<^verbatim>\<open>Apparatus\<close> and \<^verbatim>\<open>Spine\<close>) reads the element structure of the
  documents and reads and writes attributes; it never adds, moves or removes a node.
  So a document is an immutable tree of elements, every element carrying its identity
  (an address), and the attributes of all elements live in one mutable store indexed by
  address. Two handles denote the same DOM element iff they are the same address.
  Strings are lists of 8-bit characters.
\<close>

type_synonym addr = nat

datatype xnode = Element (addr_of: addr) (tagName: string) (childElements: "xnode list")

text \<open>A document is given by its \<^verbatim>\<open>documentElement\<close>.\<close>

type_synonym Document = xnode

text \<open>\<^verbatim>\<open>element.attributes\<close>: qualified name to value.\<close>

type_synonym attributes = "string \<rightharpoonup> string"

type_synonym attr_store = "addr \<Rightarrow> attributes"

text \<open>
  What an XPath evaluation returns: an element, or a node of another kind (text,
  attribute, document), which has neither \<^verbatim>\<open>attributes\<close> nor \<^verbatim>\<open>setAttribute\<close>.
\<close>

datatype node = ElementNode addr | OtherNode

text \<open>All descendant elements in document order (the element itself excluded).\<close>

fun descendants :: "xnode \<Rightarrow> xnode list" where
  "descendants (Element a t cs) = concat (map (\<lambda>c. c # descendants c) cs)"

text \<open>\<^verbatim>\<open>element.getElementsByTagName(name)\<close>\<close>

definition getElementsByTagName :: "xnode \<Rightarrow> string \<Rightarrow> xnode list" where
  "getElementsByTagName el t = filter (\<lambda>e. tagName e = t) (descendants el)"

text \<open>\<^verbatim>\<open>document.getElementsByTagName(name)\<close>: the document element is a candidate too.\<close>

definition getElementsByTagName_doc :: "Document \<Rightarrow> string \<Rightarrow> xnode list" where
  "getElementsByTagName_doc doc t = filter (\<lambda>e. tagName e = t) (doc # descendants doc)"

text \<open>
  \<^verbatim>\<open>node.parentNode\<close>, read off the tree of the document the node belongs to: the
  element that has the node among its children. The parent of the document element is
  the document node, which is not an element (\<open>None\<close>).
\<close>

definition parentNode :: "Document \<Rightarrow> addr \<Rightarrow> xnode option" where
  "parentNode doc a =
     find (\<lambda>p. a \<in> set (map addr_of (childElements p))) (doc # descendants doc)"

text \<open>\<^verbatim>\<open>element.attributes.getNamedItem(name)\<close>, as the value of the attribute found.\<close>

definition getNamedItem :: "attr_store \<Rightarrow> addr \<Rightarrow> string \<Rightarrow> string option" where
  "getNamedItem h a k = h a k"

section \<open>Errors\<close>

text \<open>
  One constructor per \<^verbatim>\<open>throw\<close> of the source, and three for what the platform
  raises: a rejected fetch, an XPath expression the engine refuses, and a member access
  on a node that is not an element.
\<close>

datatype error =
    MissingIdentifier         \<comment> \<open>\<^verbatim>\<open><app> tag with no xml:id\<close>\<close>
  | InvalidParentOfPtr        \<comment> \<open>\<^verbatim>\<open>Parent of <ptr> is not <rdg>\<close>\<close>
  | MissingWitness            \<comment> \<open>\<^verbatim>\<open><rdg> element does not have a wit attribute\<close>\<close>
  | UnknownEdition            \<comment> \<open>\<^verbatim>\<open><rdg> has invalid witness ...\<close>\<close>
  | InvalidParentOfRdg        \<comment> \<open>\<^verbatim>\<open>Parent of <rdg> element is not <rdgGrp>\<close>\<close>
  | MissingGroupIdentifier    \<comment> \<open>\<^verbatim>\<open><rdrGrp> has no xml:id\<close>\<close>
  | MissingTarget             \<comment> \<open>\<^verbatim>\<open><ptr> element has not target attribute\<close>\<close>
  | MalformedTarget           \<comment> \<open>\<^verbatim>\<open>Target ... is not well formatted. Expected uri#xpath\<close>\<close>
  | ParseAppsBeforeGetXML     \<comment> \<open>\<^verbatim>\<open>parseApps called before getXML\<close>\<close>
  | SpineNotInitialized       \<comment> \<open>\<^verbatim>\<open>Spine not initialized yet\<close>\<close>
  | StringRangeNoNodes        \<comment> \<open>\<^verbatim>\<open>string-range returned no nodes\<close>\<close>
  | StringRangeManyNodes      \<comment> \<open>\<^verbatim>\<open>string-range returned more than one node\<close>\<close>
  | InvalidElement            \<comment> \<open>\<^verbatim>\<open>Pointer ... references an invalid element\<close>\<close>
  | AmbiguousElement          \<comment> \<open>\<^verbatim>\<open>Pointer ... references more than one element\<close>\<close>
  | FetchError
  | XPathError
  | TypeError

text \<open>\<^verbatim>\<open>Array.prototype.map\<close> with a callback that may throw: the first throw ends it.\<close>

fun mapE :: "('a \<Rightarrow> error + 'b) \<Rightarrow> 'a list \<Rightarrow> error + 'b list" where
  "mapE f [] = Inr []"
| "mapE f (x # xs) =
     (case f x of
        Inl e \<Rightarrow> Inl e
      | Inr y \<Rightarrow> (case mapE f xs of Inl e \<Rightarrow> Inl e | Inr ys \<Rightarrow> Inr (y # ys)))"

section \<open>The edition registry (\<^verbatim>\<open>FvStoreClass\<close>)\<close>

text \<open>
  Modelled from the spec: the class \<^verbatim>\<open>Edition\<close> (its file is not part of the sources
  at hand): an immutable descriptor of code, display name and the chunk numbers it
  provides, built by \<^verbatim>\<open>new Edition(code, name, chunks)\<close>.
\<close>

record Edition =
  code :: string
  name :: string
  chunks :: "nat list"

definition editions :: "Edition list" where
  "editions =
     [\<lparr>code = ''1818'', name = ''1818'', chunks = [1, 2, 3, 4, 5, 6, 7, 8, 9, 10]\<rparr>,
      \<lparr>code = ''1823'', name = ''1823'', chunks = [1, 2, 3, 4, 5, 6, 7, 8, 9, 10]\<rparr>,
      \<lparr>code = ''1831'', name = ''1831'', chunks = [1, 2, 3, 4, 5, 6, 7, 8, 9, 10]\<rparr>,
      \<lparr>code = ''Thomas'', name = ''Thomas'', chunks = [1, 2, 3, 4, 5, 6, 7, 8, 9, 10]\<rparr>,
      \<lparr>code = ''MS'', name = ''MS'', chunks = [7, 8, 9, 10]\<rparr>]"

text \<open>
  \<^verbatim>\<open>getEdition(code) { return this.editions.find((ed) => ed.code === code); }\<close>
  The result is the descriptor or \<^verbatim>\<open>undefined\<close> (\<open>None\<close>); the sum type records
  that the call can be wrapped in \<^verbatim>\<open>try\<close>, and that no branch of it throws.
\<close>

definition getEdition :: "string \<Rightarrow> error + Edition option" where
  "getEdition c = Inr (find (\<lambda>ed. code ed = c) editions)"

section \<open>Apparatus and pointers\<close>

text \<open>A JavaScript number as \<^verbatim>\<open>parseInt\<close> returns it; the resolver stores such numbers and never reads them.\<close>

datatype number = Number int | NaN

record PointerData =
  ptrElement :: addr
  groupId :: string
  edition :: "Edition option"
  referencedUrl :: string
  referencedTarget :: string
  dereferenced :: "node option"

record Apparatus =
  id_app :: string
  n_app :: "number option"
  element :: addr
  pointers :: "PointerData list"

text \<open>\<^verbatim>\<open>String.prototype.split\<close> with a separator of one character.\<close>

fun split_on :: "char \<Rightarrow> string \<Rightarrow> string list" where
  "split_on c [] = [[]]"
| "split_on c (x # xs) =
     (if x = c then [] # split_on c xs
      else (case split_on c xs of [] \<Rightarrow> [[x]] | p # ps \<Rightarrow> (x # p) # ps))"

text \<open>\<^verbatim>\<open>str.substr(2)\<close>\<close>

definition substr2 :: "string \<Rightarrow> string" where
  "substr2 s = drop 2 s"

text \<open>
  \<^verbatim>\<open>Apparatus.parsePointer\<close>. The pointer element is an element of the spine
  document \<open>doc\<close>; \<open>h\<close> holds the attributes.
\<close>

definition parsePointer :: "attr_store \<Rightarrow> Document \<Rightarrow> xnode \<Rightarrow> error + PointerData" where
  "parsePointer h doc ptrEl =
     (case parentNode doc (addr_of ptrEl) of
        None \<Rightarrow> Inl InvalidParentOfPtr
      | Some rdgElement \<Rightarrow>
          if tagName rdgElement \<noteq> ''rdg'' then Inl InvalidParentOfPtr
          else
            (case getNamedItem h (addr_of rdgElement) ''wit'' of
               None \<Rightarrow> Inl MissingWitness
             | Some witValue \<Rightarrow>
                 (case getEdition (substr2 witValue) of
                    Inl err \<Rightarrow> Inl UnknownEdition
                  | Inr ed \<Rightarrow>
                      (case parentNode doc (addr_of rdgElement) of
                         None \<Rightarrow> Inl InvalidParentOfRdg
                       | Some rdgGroupElement \<Rightarrow>
                           if tagName rdgGroupElement \<noteq> ''rdgGrp'' then Inl InvalidParentOfRdg
                           else
                             (case getNamedItem h (addr_of rdgGroupElement) ''xml:id'' of
                                None \<Rightarrow> Inl MissingGroupIdentifier
                              | Some grpId \<Rightarrow>
                                  (case getNamedItem h (addr_of ptrEl) ''target'' of
                                     None \<Rightarrow> Inl MissingTarget
                                   | Some targetValue \<Rightarrow>
                                       (let parts = split_on (CHR ''#'') targetValue in
                                        if length parts \<noteq> 2 then Inl MalformedTarget
                                        else Inr \<lparr>ptrElement = addr_of ptrEl,
                                                  groupId = grpId,
                                                  edition = ed,
                                                  referencedUrl = parts ! 0,
                                                  referencedTarget = parts ! 1,
                                                  dereferenced = None\<rparr>)))))))"

text \<open>\<^verbatim>\<open>Apparatus.parsePointers\<close>\<close>

definition parsePointers :: "attr_store \<Rightarrow> Document \<Rightarrow> xnode \<Rightarrow> error + PointerData list" where
  "parsePointers h doc el = mapE (parsePointer h doc) (getElementsByTagName el ''ptr'')"

text \<open>
  The constructor of \<^verbatim>\<open>Apparatus\<close>. \<^verbatim>\<open>parseInt\<close> is the platform's and is taken as
  a parameter.
\<close>

definition newApparatus ::
  "(string \<Rightarrow> number) \<Rightarrow> attr_store \<Rightarrow> Document \<Rightarrow> xnode \<Rightarrow> error + Apparatus" where
  "newApparatus parseInt h doc el =
     (case getNamedItem h (addr_of el) ''xml:id'' of
        None \<Rightarrow> Inl MissingIdentifier
      | Some idValue \<Rightarrow>
          (case parsePointers h doc el of
             Inl e \<Rightarrow> Inl e
           | Inr ptrs \<Rightarrow>
               Inr \<lparr>id_app = idValue,
                    n_app = map_option parseInt (getNamedItem h (addr_of el) ''n''),
                    element = addr_of el,
                    pointers = ptrs\<rparr>))"

section \<open>Strings\<close>

text \<open>The decimal numeral of a natural number, as a template literal prints it.\<close>

function string_of_nat :: "nat \<Rightarrow> string" where
  "string_of_nat k =
     (if k < 10 then [''0123456789'' ! k]
      else string_of_nat (k div 10) @ [''0123456789'' ! (k mod 10)])"
  by pat_completeness auto
termination
  by (relation "measure id") auto

text \<open>\<^verbatim>\<open>str.replace(/tei:/g, '')\<close>: one pass from the left, matches do not overlap.\<close>

function remove_tei :: "string \<Rightarrow> string" where
  "remove_tei s =
     (if s = [] then []
      else if take 4 s = ''tei:'' then remove_tei (drop 4 s)
      else hd s # remove_tei (tl s))"
  by pat_completeness auto
termination
  by (relation "measure length") auto

text \<open>
  The range grammar
  \<^verbatim>\<open>/^string-range\((?<xpath>.+),(?<start>\d+),(?<length>\d+)\)$/\<close>.
  The two digit groups hold no comma, so a match is unique: the text after
  \<^verbatim>\<open>string-range(\<close> and before the final \<^verbatim>\<open>)\<close> is cut at its last two commas.
  \<^verbatim>\<open>.\<close> matches every character but a line terminator (of the 8-bit characters:
  line feed and carriage return); \<^verbatim>\<open>\d\<close> matches the ten ASCII digits.
\<close>

definition is_digit :: "char \<Rightarrow> bool" where
  "is_digit c = (c \<in> set ''0123456789'')"

definition is_line_terminator :: "char \<Rightarrow> bool" where
  "is_line_terminator c = (c = CHR 0x0A \<or> c = CHR 0x0D)"

definition split_last_comma :: "string \<Rightarrow> (string \<times> string) option" where
  "split_last_comma s =
     (let back = takeWhile (\<lambda>c. c \<noteq> CHR '','') (rev s) in
      if length back = length s then None
      else Some (rev (drop (Suc (length back)) (rev s)), rev back))"

definition match_string_range :: "string \<Rightarrow> (string \<times> string \<times> string) option" where
  "match_string_range t =
     (if take 13 t \<noteq> ''string-range('' \<or> last t \<noteq> CHR '')'' then None
      else
        (case split_last_comma (butlast (drop 13 t)) of
           None \<Rightarrow> None
         | Some (rest, len) \<Rightarrow>
             (case split_last_comma rest of
                None \<Rightarrow> None
              | Some (xp, st) \<Rightarrow>
                  if xp \<noteq> [] \<and> \<not> list_ex is_line_terminator xp
                     \<and> st \<noteq> [] \<and> list_all is_digit st
                     \<and> len \<noteq> [] \<and> list_all is_digit len
                  then Some (xp, st, len) else None)))"

section \<open>The platform and the state\<close>

text \<open>
  What the code calls and does not define, taken as parameters:
  \<^item> \<open>evaluate\<close>: the browser's XPath engine behind \<^verbatim>\<open>evaluateXPath\<close>
    (\<^verbatim>\<open>doc.createNSResolver\<close>, \<^verbatim>\<open>doc.evaluate\<close>, \<^verbatim>\<open>iterateNext\<close>), on the
    current attributes, a document and an expression; \<open>None\<close> when it throws;
  \<^item> \<open>net\<close>: the network: the outcome of the \<open>k\<close>-th request issued, for a URL
    (\<open>None\<close> when the fetch or the parse of the answer fails);
  \<^item> \<open>parseInt\<close>.
\<close>

record env =
  evaluate :: "attr_store \<Rightarrow> Document \<Rightarrow> string \<Rightarrow> node list option"
  net :: "nat \<Rightarrow> string \<Rightarrow> Document option"
  parseInt :: "string \<Rightarrow> number"

text \<open>
  The state: the attributes of all elements, the cache of \<^verbatim>\<open>FvStore\<close> with the log
  of the requests it issued, the static counter \<^verbatim>\<open>Spine.mockElementCount\<close>, the lines
  written to the console, and the fields of the one \<^verbatim>\<open>Spine\<close> looked at
  (\<^verbatim>\<open>chunkNumber\<close>, \<^verbatim>\<open>_apps\<close>, \<^verbatim>\<open>_xml\<close>, \<^verbatim>\<open>_initialized\<close>).
\<close>

record state =
  attrs :: attr_store
  cache :: "string \<rightharpoonup> Document"
  fetches :: "string list"
  mockElementCount :: nat
  console :: "string list"
  chunkNumber :: nat
  priv_apps :: "Apparatus list option"
  priv_xml :: "Document option"
  priv_initialized :: bool

text \<open>A step of the resolver: it ends normally (\<open>None\<close>) or throws, and leaves a state.\<close>

type_synonym phase = "state \<Rightarrow> error option \<times> state"

definition andThen :: "phase \<Rightarrow> phase \<Rightarrow> phase" where
  "andThen f g s = (case f s of (None, s') \<Rightarrow> g s' | (Some e, s') \<Rightarrow> (Some e, s'))"

text \<open>\<^verbatim>\<open>element.setAttribute(name, value)\<close>\<close>

definition setAttribute :: "addr \<Rightarrow> string \<Rightarrow> string \<Rightarrow> state \<Rightarrow> state" where
  "setAttribute a k v s = s\<lparr>attrs := (attrs s)(a := (attrs s a)(k \<mapsto> v))\<rparr>"

definition console_log :: "string \<Rightarrow> state \<Rightarrow> state" where
  "console_log msg s = s\<lparr>console := console s @ [msg]\<rparr>"

text \<open>
  Modelled from the spec: \<^verbatim>\<open>XmlCache.getXML\<close> (its file is not part of the sources
  at hand). A URL that was fetched with success is answered from the cache, with no
  request; otherwise one request is issued, and its answer is kept when it is a
  document. A failure is not kept: the next call asks again.
\<close>

definition cache_getXML :: "env \<Rightarrow> string \<Rightarrow> state \<Rightarrow> Document option \<times> state" where
  "cache_getXML E url s =
     (case cache s url of
        Some d \<Rightarrow> (Some d, s)
      | None \<Rightarrow>
          (let s1 = s\<lparr>fetches := fetches s @ [url]\<rparr> in
           case net E (length (fetches s)) url of
             None \<Rightarrow> (None, s1)
           | Some d \<Rightarrow> (Some d, s1\<lparr>cache := (cache s1)(url \<mapsto> d)\<rparr>)))"

text \<open>\<^verbatim>\<open>evaluateXPath(doc, xpath)\<close>\<close>

definition evaluateXPath :: "env \<Rightarrow> state \<Rightarrow> Document \<Rightarrow> string \<Rightarrow> node list option" where
  "evaluateXPath E s doc xp = evaluate E (attrs s) doc xp"

text \<open>\<^verbatim>\<open>findElementByXmlId(doc, xmlId)\<close>\<close>

definition findElementByXmlId :: "env \<Rightarrow> state \<Rightarrow> Document \<Rightarrow> string \<Rightarrow> error + node" where
  "findElementByXmlId E s doc xmlId =
     (let xp = ''//*[@xml:id='' @ [CHR 0x22] @ xmlId @ [CHR 0x22] @ '']'' in
      case evaluateXPath E s doc xp of
        None \<Rightarrow> Inl XPathError
      | Some idResults \<Rightarrow>
          if length idResults = 0 then Inl InvalidElement
          else if length idResults > 1 then Inl AmbiguousElement
          else Inr (idResults ! 0))"

section \<open>The pipeline of \<^verbatim>\<open>Spine\<close>\<close>

text \<open>\<^verbatim>\<open>Spine.getXML\<close> and the first line of work of \<^verbatim>\<open>initialize\<close>.\<close>

definition spine_url :: "nat \<Rightarrow> string" where
  "spine_url k =
     (let chunkStr = (if k < 10 then ''0'' @ string_of_nat k else string_of_nat k) in
      ''https://raw.githubusercontent.com/PghFrankenstein/fv-data/master/standoff_Spine/spine_C''
        @ chunkStr @ ''.xml'')"

definition loadXML :: "env \<Rightarrow> phase" where
  "loadXML E s =
     (case cache_getXML E (spine_url (chunkNumber s)) s of
        (None, s1) \<Rightarrow> (Some FetchError, s1)
      | (Some d, s1) \<Rightarrow> (None, s1\<lparr>priv_xml := Some d\<rparr>))"

text \<open>\<^verbatim>\<open>Spine.parseApps\<close>\<close>

definition parseApps :: "env \<Rightarrow> phase" where
  "parseApps E s =
     (case priv_xml s of
        None \<Rightarrow> (Some ParseAppsBeforeGetXML, s)
      | Some doc \<Rightarrow>
          (case mapE (newApparatus (parseInt E) (attrs s) doc) (getElementsByTagName_doc doc ''app'') of
             Inl e \<Rightarrow> (Some e, s)
           | Inr apps \<Rightarrow> (None, s\<lparr>priv_apps := Some apps\<rparr>)))"

text \<open>
  \<^verbatim>\<open>Spine.fetchAllReferences\<close>. \<open>unique\<close> is \<^verbatim>\<open>Array.from(new Set(allUrls))\<close>: each
  URL once, in the order of first occurrence. Every request is issued before any is
  awaited, and \<^verbatim>\<open>Promise.all\<close> rejects when one of them does.
\<close>

definition unique :: "string list \<Rightarrow> string list" where
  "unique xs = fold (\<lambda>x acc. if x \<in> set acc then acc else acc @ [x]) xs []"

fun getXML_all :: "env \<Rightarrow> string list \<Rightarrow> state \<Rightarrow> bool \<times> state" where
  "getXML_all E [] s = (True, s)"
| "getXML_all E (url # urls) s =
     (case cache_getXML E url s of
        (r, s1) \<Rightarrow> (case getXML_all E urls s1 of (ok, s2) \<Rightarrow> (r \<noteq> None \<and> ok, s2)))"

definition fetchAllReferences :: "env \<Rightarrow> phase" where
  "fetchAllReferences E s =
     (let s0 = console_log (''Fetching all URLs referenced by chunk '' @ string_of_nat (chunkNumber s)) s in
      case priv_apps s0 of
        None \<Rightarrow> (Some SpineNotInitialized, s0)
      | Some apps \<Rightarrow>
          (let allUrls = concat (map (\<lambda>app. map referencedUrl (pointers app)) apps) in
           case getXML_all E (unique allUrls) s0 of
             (ok, s1) \<Rightarrow> (if ok then None else Some FetchError, s1)))"

text \<open>\<^verbatim>\<open>Spine.rewriteStringRange\<close>. The pointer is an object changed in place: the
  function returns it as changed.\<close>

record StringRange =
  xpath :: string
  start :: number
  length_range :: number

definition rewriteStringRange ::
  "env \<Rightarrow> PointerData \<Rightarrow> StringRange \<Rightarrow> state \<Rightarrow> (error + PointerData) \<times> state" where
  "rewriteStringRange E ptr rng s =
     (case cache_getXML E (referencedUrl ptr) s of
        (None, s1) \<Rightarrow> (Inl FetchError, s1)
      | (Some targetDoc, s1) \<Rightarrow>
          (let patchedXPath = remove_tei (xpath rng) in
           case evaluateXPath E s1 targetDoc patchedXPath of
             None \<Rightarrow> (Inl XPathError, s1)
           | Some targetNodes \<Rightarrow>
               if length targetNodes = 0 then
                 (Inl StringRangeNoNodes,
                  console_log (''string-range for xpath '' @ patchedXPath @ '' failed to return a node'') s1)
               else if length targetNodes > 1 then
                 (Inl StringRangeManyNodes,
                  console_log (''string-range for xpath '' @ patchedXPath @ '' returned more than one node'') s1)
               else
                 (case targetNodes ! 0 of
                    OtherNode \<Rightarrow> (Inl TypeError, s1)
                  | ElementNode targetElement \<Rightarrow>
                      (case (case getNamedItem (attrs s1) targetElement ''xml:id'' of
                               Some idValue \<Rightarrow> (idValue, s1)
                             | None \<Rightarrow>
                                 (let xmlId = ''mock-id-'' @ string_of_nat (mockElementCount s1) in
                                  (xmlId,
                                   setAttribute targetElement ''xml:id'' xmlId
                                     (s1\<lparr>mockElementCount := mockElementCount s1 + 1\<rparr>)))) of
                         (xmlId, s2) \<Rightarrow>
                           (let ptr' = ptr\<lparr>referencedTarget := xmlId\<rparr> in
                            (Inr ptr',
                             setAttribute (ptrElement ptr') ''target''
                               (referencedTarget ptr' @ ''#'' @ xmlId) s2))))))"

text \<open>
  \<^verbatim>\<open>Spine.rewriteStringRanges\<close>. The inner loop returns every pointer as it is after
  the loop, with a flag: \<open>False\<close> when the pointer was added to \<^verbatim>\<open>invalidPointers\<close>
  (a set of objects: membership is by identity, which is the position in the list).
\<close>

fun rewrite_ptrs :: "env \<Rightarrow> PointerData list \<Rightarrow> state \<Rightarrow> (PointerData \<times> bool) list \<times> state" where
  "rewrite_ptrs E [] s = ([], s)"
| "rewrite_ptrs E (ptr # ptrs) s =
     (case match_string_range (referencedTarget ptr) of
        None \<Rightarrow> (case rewrite_ptrs E ptrs s of (rs, s') \<Rightarrow> ((ptr, True) # rs, s'))
      | Some (xp, st, len) \<Rightarrow>
          (case rewriteStringRange E ptr
                  \<lparr>xpath = xp, start = parseInt E st, length_range = parseInt E len\<rparr> s of
             (Inl err, s1) \<Rightarrow> (case rewrite_ptrs E ptrs s1 of (rs, s') \<Rightarrow> ((ptr, False) # rs, s'))
           | (Inr ptr', s1) \<Rightarrow> (case rewrite_ptrs E ptrs s1 of (rs, s') \<Rightarrow> ((ptr', True) # rs, s'))))"

definition rewrite_app :: "env \<Rightarrow> Apparatus \<Rightarrow> state \<Rightarrow> Apparatus \<times> state" where
  "rewrite_app E app s =
     (case rewrite_ptrs E (pointers app) s of
        (rs, s') \<Rightarrow> (app\<lparr>pointers := map fst (filter snd rs)\<rparr>, s'))"

fun rewrite_apps :: "env \<Rightarrow> Apparatus list \<Rightarrow> state \<Rightarrow> Apparatus list \<times> state" where
  "rewrite_apps E [] s = ([], s)"
| "rewrite_apps E (app # apps) s =
     (case rewrite_app E app s of
        (app', s1) \<Rightarrow> (case rewrite_apps E apps s1 of (apps', s2) \<Rightarrow> (app' # apps', s2)))"

definition rewriteStringRanges :: "env \<Rightarrow> phase" where
  "rewriteStringRanges E s =
     (case priv_apps s of
        None \<Rightarrow> (Some SpineNotInitialized, s)
      | Some apps \<Rightarrow>
          (case rewrite_apps E apps s of (apps', s') \<Rightarrow> (None, s'\<lparr>priv_apps := Some apps'\<rparr>)))"

text \<open>
  \<^verbatim>\<open>Spine.dereferencePointers\<close>. A throw leaves the pointers handled before it
  with their handle set.
\<close>

fun deref_ptrs :: "env \<Rightarrow> PointerData list \<Rightarrow> state \<Rightarrow> error option \<times> PointerData list \<times> state" where
  "deref_ptrs E [] s = (None, [], s)"
| "deref_ptrs E (ptr # ptrs) s =
     (case cache_getXML E (referencedUrl ptr) s of
        (None, s1) \<Rightarrow> (Some FetchError, ptr # ptrs, s1)
      | (Some doc, s1) \<Rightarrow>
          (case findElementByXmlId E s1 doc (referencedTarget ptr) of
             Inl e \<Rightarrow> (Some e, ptr # ptrs, s1)
           | Inr el \<Rightarrow>
               (case deref_ptrs E ptrs s1 of
                  (r, ptrs', s2) \<Rightarrow> (r, ptr\<lparr>dereferenced := Some el\<rparr> # ptrs', s2))))"

fun deref_apps :: "env \<Rightarrow> Apparatus list \<Rightarrow> state \<Rightarrow> error option \<times> Apparatus list \<times> state" where
  "deref_apps E [] s = (None, [], s)"
| "deref_apps E (app # apps) s =
     (case deref_ptrs E (pointers app) s of
        (Some e, ptrs', s1) \<Rightarrow> (Some e, app\<lparr>pointers := ptrs'\<rparr> # apps, s1)
      | (None, ptrs', s1) \<Rightarrow>
          (case deref_apps E apps s1 of
             (r, apps', s2) \<Rightarrow> (r, app\<lparr>pointers := ptrs'\<rparr> # apps', s2)))"

definition dereferencePointers :: "env \<Rightarrow> phase" where
  "dereferencePointers E s =
     (case priv_apps s of
        None \<Rightarrow> (Some SpineNotInitialized, s)
      | Some apps \<Rightarrow>
          (case deref_apps E apps s of (r, apps', s') \<Rightarrow> (r, s'\<lparr>priv_apps := Some apps'\<rparr>)))"

text \<open>\<^verbatim>\<open>Spine.addBackPointers\<close>\<close>

fun backptrs_ptrs :: "string \<Rightarrow> PointerData list \<Rightarrow> phase" where
  "backptrs_ptrs appId [] s = (None, s)"
| "backptrs_ptrs appId (ptr # ptrs) s =
     (case dereferenced ptr of
        None \<Rightarrow>
          backptrs_ptrs appId ptrs
            (console_log ''Non dereferenced pointed in addBackPointers - pointers should all be dereferenced by now'' s)
      | Some OtherNode \<Rightarrow> (Some TypeError, s)
      | Some (ElementNode el) \<Rightarrow> backptrs_ptrs appId ptrs (setAttribute el ''app-ref'' appId s))"

fun backptrs_apps :: "Apparatus list \<Rightarrow> phase" where
  "backptrs_apps [] s = (None, s)"
| "backptrs_apps (app # apps) s =
     (case backptrs_ptrs (id_app app) (pointers app) s of
        (Some e, s1) \<Rightarrow> (Some e, s1)
      | (None, s1) \<Rightarrow> backptrs_apps apps s1)"

definition addBackPointers :: phase where
  "addBackPointers s =
     (case priv_apps s of
        None \<Rightarrow> (Some SpineNotInitialized, s)
      | Some apps \<Rightarrow> backptrs_apps apps s)"

text \<open>\<^verbatim>\<open>Spine.initialize\<close>\<close>

definition setInitialized :: phase where
  "setInitialized s = (None, s\<lparr>priv_initialized := True\<rparr>)"

definition initialize :: "env \<Rightarrow> phase" where
  "initialize E s =
     (if priv_initialized s then (None, s)
      else
        andThen (loadXML E)
          (andThen (parseApps E)
            (andThen (fetchAllReferences E)
              (andThen (rewriteStringRanges E)
                (andThen (dereferencePointers E)
                  (andThen addBackPointers setInitialized))))) s)"

section \<open>A small world for the examples\<close>

text \<open>
  A spine of two apparatus entries, the first with two readings, and one witness
  document of a \<^verbatim>\<open>body\<close> with two paragraphs, the first of which has the id
  \<^verbatim>\<open>w1\<close>. The targets of the three pointers are left open.
\<close>

definition sample_spine :: Document where
  "sample_spine =
     Element 0 ''TEI''
       [Element 1 ''app''
          [Element 2 ''rdgGrp''
             [Element 3 ''rdg'' [Element 4 ''ptr'' []],
              Element 5 ''rdg'' [Element 6 ''ptr'' []]]],
        Element 7 ''app''
          [Element 8 ''rdgGrp'' [Element 9 ''rdg'' [Element 10 ''ptr'' []]]]]"

definition sample_witness :: Document where
  "sample_witness = Element 20 ''body'' [Element 21 ''p'' [], Element 22 ''p'' []]"

definition sample_attrs :: "string \<Rightarrow> string \<Rightarrow> string \<Rightarrow> attr_store" where
  "sample_attrs t1 t2 t3 =
     (\<lambda>a. Map.empty)
       (1 := [''xml:id'' \<mapsto> ''A1''],
        2 := [''xml:id'' \<mapsto> ''G1''],
        3 := [''wit'' \<mapsto> ''#f1818''],
        4 := [''target'' \<mapsto> t1],
        5 := [''wit'' \<mapsto> ''#fMS''],
        6 := [''target'' \<mapsto> t2],
        7 := [''xml:id'' \<mapsto> ''A2''],
        8 := [''xml:id'' \<mapsto> ''G2''],
        9 := [''wit'' \<mapsto> ''#f1823''],
        10 := [''target'' \<mapsto> t3],
        21 := [''xml:id'' \<mapsto> ''w1''])"

text \<open>
  An XPath engine for two shapes of expression: \<^verbatim>\<open>//*[@xml:id="v"]\<close>, the elements
  whose id is \<open>v\<close>, and \<^verbatim>\<open>//name\<close>, the elements of that name. It refuses every
  other expression.
\<close>

definition sample_evaluate :: "attr_store \<Rightarrow> Document \<Rightarrow> string \<Rightarrow> node list option" where
  "sample_evaluate h doc xp =
     (if take 13 xp = ''//*[@xml:id='' @ [CHR 0x22] \<and> drop (length xp - 2) xp = [CHR 0x22] @ '']'' then
        Some (map (\<lambda>e. ElementNode (addr_of e))
               (filter (\<lambda>e. h (addr_of e) ''xml:id'' = Some (take (length xp - 15) (drop 13 xp)))
                  (doc # descendants doc)))
      else if take 2 xp = ''//'' then
        Some (map (\<lambda>e. ElementNode (addr_of e)) (getElementsByTagName_doc doc (drop 2 xp)))
      else None)"

definition sample_net :: "nat \<Rightarrow> string \<Rightarrow> Document option" where
  "sample_net k url =
     (if url = spine_url 1 then Some sample_spine
      else if url = ''doc.xml'' then Some sample_witness
      else None)"

text \<open>\<^verbatim>\<open>parseInt\<close> as far as the examples need it: the value of a string of decimal digits.\<close>

definition sample_parseInt :: "string \<Rightarrow> number" where
  "sample_parseInt s =
     (if s \<noteq> [] \<and> list_all is_digit s
      then Number (int (fold (\<lambda>c k. 10 * k + (of_char c - 48)) s 0))
      else NaN)"

definition sample_env :: env where
  "sample_env = \<lparr>evaluate = sample_evaluate, net = sample_net, parseInt = sample_parseInt\<rparr>"

text \<open>Chunk 1 before its first \<^verbatim>\<open>initialize\<close>, nothing fetched yet.\<close>

definition sample_state :: "string \<Rightarrow> string \<Rightarrow> string \<Rightarrow> state" where
  "sample_state t1 t2 t3 =
     \<lparr>attrs = sample_attrs t1 t2 t3, cache = Map.empty, fetches = [], mockElementCount = 0,
      console = [], chunkNumber = 1, priv_apps = None, priv_xml = None,
      priv_initialized = False\<rparr>"

section \<open>Sequencing\<close>

lemma andThen_None:
  "andThen f g s = (None, s') \<Longrightarrow> \<exists>s1. f s = (None, s1) \<and> g s1 = (None, s')"
  by (auto simp: andThen_def split: prod.splits option.splits)

section \<open>Idempotence of \<^verbatim>\<open>initialize\<close>\<close>

text \<open>
  C8: once a call of \<^verbatim>\<open>initialize\<close> has completed, the chunk is marked initialized, and
  a second call returns at once with the state as it was: the log of requests, the
  attributes, the apparatus list and its pointers are those the first call left.
\<close>

theorem initialize_idempotent:
  "initialize E s = (None, s') \<Longrightarrow> priv_initialized s' \<and> initialize E s' = (None, s')"
proof (cases "priv_initialized s")
  case True
  assume "initialize E s = (None, s')"
  with True show ?thesis by (simp add: initialize_def)
next
  case False
  assume run: "initialize E s = (None, s')"
  from False run obtain s6 where "setInitialized s6 = (None, s')"
    unfolding initialize_def by (auto dest!: andThen_None)
  then have "priv_initialized s'" by (auto simp: setInitialized_def)
  then show ?thesis by (simp add: initialize_def)
qed

theorem initialize_idempotent_witness:
  "initialize sample_env (sample_state ''doc.xml#w1'' ''doc.xml#w1'' ''doc.xml#w1'')
     = (None, snd (initialize sample_env (sample_state ''doc.xml#w1'' ''doc.xml#w1'' ''doc.xml#w1'')))
   \<and> priv_initialized (snd (initialize sample_env (sample_state ''doc.xml#w1'' ''doc.xml#w1'' ''doc.xml#w1'')))
   \<and> initialize sample_env (snd (initialize sample_env (sample_state ''doc.xml#w1'' ''doc.xml#w1'' ''doc.xml#w1'')))
     = (None, snd (initialize sample_env (sample_state ''doc.xml#w1'' ''doc.xml#w1'' ''doc.xml#w1'')))"
proof -
  have "fst (initialize sample_env (sample_state ''doc.xml#w1'' ''doc.xml#w1'' ''doc.xml#w1'')) = None"
    by code_simp
  then have run: "initialize sample_env (sample_state ''doc.xml#w1'' ''doc.xml#w1'' ''doc.xml#w1'')
     = (None, snd (initialize sample_env (sample_state ''doc.xml#w1'' ''doc.xml#w1'' ''doc.xml#w1'')))"
    by (simp add: prod_eq_iff)
  from initialize_idempotent [OF run] run show ?thesis by simp
qed

section \<open>The target attribute after a range rewrite\<close>

text \<open>
  C1: the run of \<^verbatim>\<open>initialize\<close> on the small world with the first pointer's target
  \<^verbatim>\<open>doc.xml#string-range(//tei:body,0,10)\<close>. The range resolves to the one
  \<^verbatim>\<open>body\<close> element, which gets the id \<^verbatim>\<open>mock-id-0\<close>; the pointer record then
  denotes \<^verbatim>\<open>doc.xml\<close> and \<^verbatim>\<open>mock-id-0\<close>, while the attribute written on the
  \<^verbatim>\<open>ptr\<close> element is \<^verbatim>\<open>mock-id-0#mock-id-0\<close>, not \<^verbatim>\<open>doc.xml#mock-id-0\<close>:
  the template reads \<^verbatim>\<open>referencedTarget\<close>, just overwritten, where the URL belongs.
\<close>

theorem rewriteStringRange_target_attribute:
  "fst (initialize sample_env
         (sample_state ''doc.xml#string-range(//tei:body,0,10)''
            ''doc.xml#string-range(//tei:p,0,5)'' ''doc.xml#w1'')) = None
   \<and> map_option (map (\<lambda>a. map (\<lambda>p. (ptrElement p, referencedUrl p, referencedTarget p)) (pointers a)))
        (priv_apps (snd (initialize sample_env
         (sample_state ''doc.xml#string-range(//tei:body,0,10)''
            ''doc.xml#string-range(//tei:p,0,5)'' ''doc.xml#w1''))))
       = Some [[(4, ''doc.xml'', ''mock-id-0'')], [(10, ''doc.xml'', ''w1'')]]
   \<and> attrs (snd (initialize sample_env
         (sample_state ''doc.xml#string-range(//tei:body,0,10)''
            ''doc.xml#string-range(//tei:p,0,5)'' ''doc.xml#w1''))) 4 ''target''
       = Some ''mock-id-0#mock-id-0''"
  by code_simp

section \<open>A witness code without an edition\<close>

text \<open>
  C2: the registry answers a code it does not know with no descriptor and no error, so
  the \<^verbatim>\<open>catch\<close> of \<^verbatim>\<open>parsePointer\<close> never runs: the second apparatus entry of the
  small world, its reading's witness changed to \<^verbatim>\<open>#f1820\<close>, parses with success
  to a pointer whose edition is undefined.
\<close>

theorem unknown_witness_parses:
  "getEdition ''1820'' = Inr None
   \<and> newApparatus sample_parseInt
       ((sample_attrs ''doc.xml#w1'' ''doc.xml#w1'' ''doc.xml#w1'')(9 := [''wit'' \<mapsto> ''#f1820'']))
       sample_spine
       (Element 7 ''app'' [Element 8 ''rdgGrp'' [Element 9 ''rdg'' [Element 10 ''ptr'' []]]])
     = Inr \<lparr>id_app = ''A2'', n_app = None, element = 7,
            pointers = [\<lparr>ptrElement = 10, groupId = ''G2'', edition = None,
                         referencedUrl = ''doc.xml'', referencedTarget = ''w1'',
                         dereferenced = None\<rparr>]\<rparr>"
  by code_simp

section \<open>Parsing an apparatus entry\<close>

lemma split_on_not_Nil: "split_on c s \<noteq> []"
  by (induction s) (auto split: list.splits)

lemma length_split_on: "length (split_on c s) = Suc (count_list s c)"
  by (induction s) (auto split: list.splits simp: split_on_not_Nil)

lemma split_on_no_sep: "c \<notin> set f \<Longrightarrow> split_on c f = [f]"
  by (induction f) auto

lemma split_on_append: "c \<notin> set u \<Longrightarrow> split_on c (u @ c # f) = u # split_on c f"
  by (induction u) auto

lemma split_on_two:
  "split_on c s = [a, b] \<Longrightarrow> s = a @ c # b \<and> c \<notin> set a \<and> c \<notin> set b"
proof (induction s arbitrary: a)
  case Nil
  then show ?case by simp
next
  case (Cons x xs)
  show ?case
  proof (cases "x = c")
    case True
    with Cons.prems have a: "a = []" and r: "split_on c xs = [b]" by auto
    from r have "count_list xs c = 0"
      using length_split_on [of c xs] by simp
    then have "c \<notin> set xs" by (simp add: count_list_0_iff)
    with r have "b = xs" by (simp add: split_on_no_sep)
    with a True \<open>c \<notin> set xs\<close> show ?thesis by simp
  next
    case False
    with Cons.prems obtain a' where s: "split_on c xs = [a', b]" and a: "a = x # a'"
      by (auto split: list.splits)
    from Cons.IH [OF s] a False show ?thesis by simp
  qed
qed

lemma mapE_Inr_set:
  "mapE f xs = Inr ys \<Longrightarrow> y \<in> set ys \<Longrightarrow> \<exists>x \<in> set xs. f x = Inr y"
  by (induction xs arbitrary: ys) (auto split: sum.splits)

lemma parsePointer_Inr:
  assumes "parsePointer h doc ptrEl = Inr p"
  shows "ptrElement p = addr_of ptrEl \<and> dereferenced p = None
       \<and> (\<exists>rdg grp. parentNode doc (ptrElement p) = Some rdg \<and> tagName rdg = ''rdg''
            \<and> getNamedItem h (addr_of rdg) ''wit'' \<noteq> None
            \<and> parentNode doc (addr_of rdg) = Some grp \<and> tagName grp = ''rdgGrp''
            \<and> getNamedItem h (addr_of grp) ''xml:id'' = Some (groupId p)
            \<and> getNamedItem h (ptrElement p) ''target'' = Some (referencedUrl p @ ''#'' @ referencedTarget p)
            \<and> CHR ''#'' \<notin> set (referencedUrl p) \<and> CHR ''#'' \<notin> set (referencedTarget p))"
proof -
  from assms obtain rdg where 1: "parentNode doc (addr_of ptrEl) = Some rdg" and 2: "tagName rdg = ''rdg''"
    by (auto simp: parsePointer_def split: option.splits if_splits)
  from assms 1 2 obtain w where 3: "getNamedItem h (addr_of rdg) ''wit'' = Some w"
    by (auto simp: parsePointer_def split: option.splits if_splits)
  from assms 1 2 3 obtain ed where 4: "getEdition (substr2 w) = Inr ed"
    by (auto simp: parsePointer_def split: option.splits if_splits sum.splits)
  from assms 1 2 3 4 obtain grp where 5: "parentNode doc (addr_of rdg) = Some grp" and 6: "tagName grp = ''rdgGrp''"
    by (auto simp: parsePointer_def split: option.splits if_splits)
  from assms 1 2 3 4 5 6 obtain g where 7: "getNamedItem h (addr_of grp) ''xml:id'' = Some g"
    by (auto simp: parsePointer_def split: option.splits if_splits)
  from assms 1 2 3 4 5 6 7 obtain t where 8: "getNamedItem h (addr_of ptrEl) ''target'' = Some t"
    by (auto simp: parsePointer_def split: option.splits if_splits)
  from assms 1 2 3 4 5 6 7 8 have 9: "length (split_on (CHR ''#'') t) = 2"
    and p: "p = \<lparr>ptrElement = addr_of ptrEl, groupId = g, edition = ed,
                 referencedUrl = split_on (CHR ''#'') t ! 0, referencedTarget = split_on (CHR ''#'') t ! 1,
                 dereferenced = None\<rparr>"
    by (auto simp: parsePointer_def Let_def split: if_splits)
  from 9 obtain a b where ab: "split_on (CHR ''#'') t = [a, b]"
    by (cases "split_on (CHR ''#'') t" rule: list.exhaust; simp; metis length_0_conv length_Suc_conv)
  from split_on_two [OF ab] have t: "t = a @ CHR ''#'' # b" "CHR ''#'' \<notin> set a" "CHR ''#'' \<notin> set b" by auto
  from p ab have "referencedUrl p = a" "referencedTarget p = b" "ptrElement p = addr_of ptrEl" "groupId p = g" "dereferenced p = None" by simp_all
  with 1 2 3 5 6 7 8 t show ?thesis by auto
qed

lemma parsePointer_checked:
  assumes "parentNode doc (addr_of ptrEl) = Some rdg" and "tagName rdg = ''rdg''"
    and "getNamedItem h (addr_of rdg) ''wit'' = Some w"
    and "parentNode doc (addr_of rdg) = Some grp" and "tagName grp = ''rdgGrp''"
    and "getNamedItem h (addr_of grp) ''xml:id'' = Some g"
    and "getNamedItem h (addr_of ptrEl) ''target'' = Some t"
  shows "parsePointer h doc ptrEl =
     (if length (split_on (CHR ''#'') t) \<noteq> 2 then Inl MalformedTarget
      else Inr \<lparr>ptrElement = addr_of ptrEl, groupId = g,
                edition = find (\<lambda>ed. code ed = substr2 w) editions,
                referencedUrl = split_on (CHR ''#'') t ! 0,
                referencedTarget = split_on (CHR ''#'') t ! 1,
                dereferenced = None\<rparr>)"
  using assms by (simp add: parsePointer_def getEdition_def Let_def)

text \<open>
  C9, as the code has it: the target is the last thing \<^verbatim>\<open>parsePointer\<close> looks at. For
  a \<^verbatim>\<open>ptr\<close> whose target attribute is \<open>t\<close>:
  \<^item> when the checks that come before the target pass (the parent is a \<^verbatim>\<open>rdg\<close> with
    a witness, whose parent is a \<^verbatim>\<open>rdgGrp\<close> with an id), a target \<open>u#f\<close> with no
    further \<^verbatim>\<open>#\<close> gives a pointer with \<^verbatim>\<open>referencedUrl\<close> \<open>u\<close> and
    \<^verbatim>\<open>referencedTarget\<close> \<open>f\<close>, and a target whose number of \<^verbatim>\<open>#\<close> is not
    one fails with \<^verbatim>\<open>MalformedTarget\<close>;
  \<^item> whatever the other checks say, a successful parse has \<open>t\<close> equal to
    \<^verbatim>\<open>referencedUrl\<close>, one \<^verbatim>\<open>#\<close>, \<^verbatim>\<open>referencedTarget\<close>, neither part holding a
    \<^verbatim>\<open>#\<close>, and a target whose number of \<^verbatim>\<open>#\<close> is not one makes the parse fail
    with some error.
\<close>

theorem parsePointer_target:
  assumes "getNamedItem h (addr_of ptrEl) ''target'' = Some t"
  shows "(\<forall>p. parsePointer h doc ptrEl = Inr p \<longrightarrow>
            t = referencedUrl p @ ''#'' @ referencedTarget p
            \<and> CHR ''#'' \<notin> set (referencedUrl p) \<and> CHR ''#'' \<notin> set (referencedTarget p))
       \<and> (count_list t (CHR ''#'') \<noteq> 1 \<longrightarrow> (\<exists>e. parsePointer h doc ptrEl = Inl e))
       \<and> (\<forall>rdg w grp g.
            parentNode doc (addr_of ptrEl) = Some rdg \<and> tagName rdg = ''rdg''
            \<and> getNamedItem h (addr_of rdg) ''wit'' = Some w
            \<and> parentNode doc (addr_of rdg) = Some grp \<and> tagName grp = ''rdgGrp''
            \<and> getNamedItem h (addr_of grp) ''xml:id'' = Some g \<longrightarrow>
              (\<forall>u f. t = u @ ''#'' @ f \<and> CHR ''#'' \<notin> set u \<and> CHR ''#'' \<notin> set f \<longrightarrow>
                 (\<exists>p. parsePointer h doc ptrEl = Inr p \<and> referencedUrl p = u \<and> referencedTarget p = f))
              \<and> (count_list t (CHR ''#'') \<noteq> 1 \<longrightarrow> parsePointer h doc ptrEl = Inl MalformedTarget))"
proof (intro conjI allI impI)
  fix p
  assume "parsePointer h doc ptrEl = Inr p"
  from parsePointer_Inr [OF this] assms
  have parts: "t = referencedUrl p @ ''#'' @ referencedTarget p \<and> CHR ''#'' \<notin> set (referencedUrl p)
      \<and> CHR ''#'' \<notin> set (referencedTarget p)"
    by auto
  then show "t = referencedUrl p @ ''#'' @ referencedTarget p" 
    and "CHR ''#'' \<notin> set (referencedUrl p)" and "CHR ''#'' \<notin> set (referencedTarget p)"
    by blast+
next
  assume many: "count_list t (CHR ''#'') \<noteq> 1"
  show "\<exists>e. parsePointer h doc ptrEl = Inl e"
  proof (cases "parsePointer h doc ptrEl")
    case (Inl e)
    then show ?thesis by blast
  next
    case (Inr p)
    from parsePointer_Inr [OF this] assms
    have "t = referencedUrl p @ ''#'' @ referencedTarget p" and "CHR ''#'' \<notin> set (referencedUrl p)"
      and "CHR ''#'' \<notin> set (referencedTarget p)"
      by auto
    then have "count_list t (CHR ''#'') = 1"
      by (simp add: count_list_0_iff)
    with many show ?thesis by simp
  qed
next
  fix rdg w grp g u f
  assume checks: "parentNode doc (addr_of ptrEl) = Some rdg \<and> tagName rdg = ''rdg''
            \<and> getNamedItem h (addr_of rdg) ''wit'' = Some w
            \<and> parentNode doc (addr_of rdg) = Some grp \<and> tagName grp = ''rdgGrp''
            \<and> getNamedItem h (addr_of grp) ''xml:id'' = Some g"
  assume "t = u @ ''#'' @ f \<and> CHR ''#'' \<notin> set u \<and> CHR ''#'' \<notin> set f"
  then have parts: "split_on (CHR ''#'') t = [u, f]"
    by (simp add: split_on_append split_on_no_sep)
  from checks have c: "parentNode doc (addr_of ptrEl) = Some rdg" "tagName rdg = ''rdg''"
    "getNamedItem h (addr_of rdg) ''wit'' = Some w" "parentNode doc (addr_of rdg) = Some grp"
    "tagName grp = ''rdgGrp''" "getNamedItem h (addr_of grp) ''xml:id'' = Some g"
    by blast+
  have "parsePointer h doc ptrEl =
      Inr \<lparr>ptrElement = addr_of ptrEl, groupId = g,
                edition = find (\<lambda>ed. code ed = substr2 w) editions,
                referencedUrl = u, referencedTarget = f, dereferenced = None\<rparr>"
    unfolding parsePointer_checked [OF c assms] parts by simp
  then show "\<exists>p. parsePointer h doc ptrEl = Inr p \<and> referencedUrl p = u \<and> referencedTarget p = f"
    by simp
next
  fix rdg w grp g
  assume checks: "parentNode doc (addr_of ptrEl) = Some rdg \<and> tagName rdg = ''rdg''
            \<and> getNamedItem h (addr_of rdg) ''wit'' = Some w
            \<and> parentNode doc (addr_of rdg) = Some grp \<and> tagName grp = ''rdgGrp''
            \<and> getNamedItem h (addr_of grp) ''xml:id'' = Some g"
  assume "count_list t (CHR ''#'') \<noteq> 1"
  then have len: "length (split_on (CHR ''#'') t) \<noteq> 2"
    by (simp add: length_split_on)
  from checks have c: "parentNode doc (addr_of ptrEl) = Some rdg" "tagName rdg = ''rdg''"
    "getNamedItem h (addr_of rdg) ''wit'' = Some w" "parentNode doc (addr_of rdg) = Some grp"
    "tagName grp = ''rdgGrp''" "getNamedItem h (addr_of grp) ''xml:id'' = Some g"
    by blast+
  show "parsePointer h doc ptrEl = Inl MalformedTarget"
    unfolding parsePointer_checked [OF c assms] using len by simp
qed

text \<open>
  The targets \<^verbatim>\<open>doc.xml#abc123\<close>, \<^verbatim>\<open>doc.xml\<close> and \<^verbatim>\<open>a#b#c\<close> on the three
  pointers of the small world.
\<close>

theorem parsePointer_target_witness:
  "(\<exists>p. parsePointer (sample_attrs ''doc.xml#abc123'' ''doc.xml'' ''a#b#c'') sample_spine (Element 4 ''ptr'' []) = Inr p
        \<and> referencedUrl p = ''doc.xml'' \<and> referencedTarget p = ''abc123'')
   \<and> parsePointer (sample_attrs ''doc.xml#abc123'' ''doc.xml'' ''a#b#c'') sample_spine (Element 6 ''ptr'' []) = Inl MalformedTarget
   \<and> parsePointer (sample_attrs ''doc.xml#abc123'' ''doc.xml'' ''a#b#c'') sample_spine (Element 10 ''ptr'' []) = Inl MalformedTarget"
proof -
  let ?h = "sample_attrs ''doc.xml#abc123'' ''doc.xml'' ''a#b#c''"
  let ?grp = "Element 2 ''rdgGrp'' [Element 3 ''rdg'' [Element 4 ''ptr'' []], Element 5 ''rdg'' [Element 6 ''ptr'' []]]"
  let ?grp2 = "Element 8 ''rdgGrp'' [Element 9 ''rdg'' [Element 10 ''ptr'' []]]"
  have g1: "parentNode sample_spine (addr_of (Element 3 ''rdg'' [Element 4 ''ptr'' []])) = Some ?grp"
    and g2: "parentNode sample_spine (addr_of (Element 5 ''rdg'' [Element 6 ''ptr'' []])) = Some ?grp"
    and g3: "parentNode sample_spine (addr_of (Element 9 ''rdg'' [Element 10 ''ptr'' []])) = Some ?grp2"
    and r1: "parentNode sample_spine (addr_of (Element 4 ''ptr'' [])) = Some (Element 3 ''rdg'' [Element 4 ''ptr'' []])"
    and r2: "parentNode sample_spine (addr_of (Element 6 ''ptr'' [])) = Some (Element 5 ''rdg'' [Element 6 ''ptr'' []])"
    and r3: "parentNode sample_spine (addr_of (Element 10 ''ptr'' [])) = Some (Element 9 ''rdg'' [Element 10 ''ptr'' []])"
    by code_simp+
  have a1: "getNamedItem ?h (addr_of (Element 3 ''rdg'' [Element 4 ''ptr'' []])) ''wit'' = Some ''#f1818''"
    and a2: "getNamedItem ?h (addr_of (Element 5 ''rdg'' [Element 6 ''ptr'' []])) ''wit'' = Some ''#fMS''"
    and a3: "getNamedItem ?h (addr_of (Element 9 ''rdg'' [Element 10 ''ptr'' []])) ''wit'' = Some ''#f1823''"
    and i1: "getNamedItem ?h (addr_of ?grp) ''xml:id'' = Some ''G1''"
    and i3: "getNamedItem ?h (addr_of ?grp2) ''xml:id'' = Some ''G2''"
    and t1: "getNamedItem ?h (addr_of (Element 4 ''ptr'' [])) ''target'' = Some ''doc.xml#abc123''"
    and t2: "getNamedItem ?h (addr_of (Element 6 ''ptr'' [])) ''target'' = Some ''doc.xml''"
    and t3: "getNamedItem ?h (addr_of (Element 10 ''ptr'' [])) ''target'' = Some ''a#b#c''"
    by code_simp+
  have c1: "parentNode sample_spine (addr_of (Element 4 ''ptr'' [])) = Some (Element 3 ''rdg'' [Element 4 ''ptr'' []])
      \<and> tagName (Element 3 ''rdg'' [Element 4 ''ptr'' []]) = ''rdg''
      \<and> getNamedItem ?h (addr_of (Element 3 ''rdg'' [Element 4 ''ptr'' []])) ''wit'' = Some ''#f1818''
      \<and> parentNode sample_spine (addr_of (Element 3 ''rdg'' [Element 4 ''ptr'' []])) = Some ?grp
      \<and> tagName ?grp = ''rdgGrp'' \<and> getNamedItem ?h (addr_of ?grp) ''xml:id'' = Some ''G1''"
    using r1 a1 g1 i1 by (intro conjI) simp_all
  have c2: "parentNode sample_spine (addr_of (Element 6 ''ptr'' [])) = Some (Element 5 ''rdg'' [Element 6 ''ptr'' []])
      \<and> tagName (Element 5 ''rdg'' [Element 6 ''ptr'' []]) = ''rdg''
      \<and> getNamedItem ?h (addr_of (Element 5 ''rdg'' [Element 6 ''ptr'' []])) ''wit'' = Some ''#fMS''
      \<and> parentNode sample_spine (addr_of (Element 5 ''rdg'' [Element 6 ''ptr'' []])) = Some ?grp
      \<and> tagName ?grp = ''rdgGrp'' \<and> getNamedItem ?h (addr_of ?grp) ''xml:id'' = Some ''G1''"
    using r2 a2 g2 i1 by (intro conjI) simp_all
  have c3: "parentNode sample_spine (addr_of (Element 10 ''ptr'' [])) = Some (Element 9 ''rdg'' [Element 10 ''ptr'' []])
      \<and> tagName (Element 9 ''rdg'' [Element 10 ''ptr'' []]) = ''rdg''
      \<and> getNamedItem ?h (addr_of (Element 9 ''rdg'' [Element 10 ''ptr'' []])) ''wit'' = Some ''#f1823''
      \<and> parentNode sample_spine (addr_of (Element 9 ''rdg'' [Element 10 ''ptr'' []])) = Some ?grp2
      \<and> tagName ?grp2 = ''rdgGrp'' \<and> getNamedItem ?h (addr_of ?grp2) ''xml:id'' = Some ''G2''"
    using r3 a3 g3 i3 by (intro conjI) simp_all
  have s1: "''doc.xml#abc123'' = ''doc.xml'' @ ''#'' @ ''abc123'' \<and> CHR ''#'' \<notin> set ''doc.xml''
      \<and> CHR ''#'' \<notin> set ''abc123''" by simp
  have n2: "count_list ''doc.xml'' (CHR ''#'') \<noteq> 1" by simp
  have n3: "count_list ''a#b#c'' (CHR ''#'') \<noteq> 1" by simp
  note first = parsePointer_target [OF t1, of sample_spine, THEN conjunct2, THEN conjunct2, rule_format,
      OF c1, THEN conjunct1, rule_format, OF s1]
  note second = parsePointer_target [OF t2, of sample_spine, THEN conjunct2, THEN conjunct2, rule_format,
      OF c2, THEN conjunct2, rule_format, OF n2]
  note third = parsePointer_target [OF t3, of sample_spine, THEN conjunct2, THEN conjunct2, rule_format,
      OF c3, THEN conjunct2, rule_format, OF n3]
  from first second third show ?thesis by blast
qed

text \<open>
  C9 as stated fails: the first pointer of the small world with the target
  \<^verbatim>\<open>doc.xml\<close>, under a \<^verbatim>\<open>rdg\<close> that has lost its witness attribute, fails with
  \<^verbatim>\<open>MissingWitness\<close>, not with \<^verbatim>\<open>MalformedTarget\<close>.
\<close>

theorem earlier_check_fails_first:
  "\<not> (\<forall>h doc ptrEl t. getNamedItem h (addr_of ptrEl) ''target'' = Some t \<longrightarrow>
        (\<forall>u f. t = u @ ''#'' @ f \<and> CHR ''#'' \<notin> set u \<and> CHR ''#'' \<notin> set f \<longrightarrow>
           (\<exists>p. parsePointer h doc ptrEl = Inr p \<and> referencedUrl p = u \<and> referencedTarget p = f))
        \<and> (count_list t (CHR ''#'') \<noteq> 1 \<longrightarrow> parsePointer h doc ptrEl = Inl MalformedTarget))"
proof
  let ?h = "(sample_attrs ''doc.xml'' ''doc.xml#w1'' ''doc.xml#w1'')(3 := Map.empty)"
  assume "\<forall>h doc ptrEl t. getNamedItem h (addr_of ptrEl) ''target'' = Some t \<longrightarrow>
        (\<forall>u f. t = u @ ''#'' @ f \<and> CHR ''#'' \<notin> set u \<and> CHR ''#'' \<notin> set f \<longrightarrow>
           (\<exists>p. parsePointer h doc ptrEl = Inr p \<and> referencedUrl p = u \<and> referencedTarget p = f))
        \<and> (count_list t (CHR ''#'') \<noteq> 1 \<longrightarrow> parsePointer h doc ptrEl = Inl MalformedTarget)"
  then have "getNamedItem ?h (addr_of (Element 4 ''ptr'' [])) ''target'' = Some ''doc.xml'' \<longrightarrow>
      (count_list ''doc.xml'' (CHR ''#'') \<noteq> 1 \<longrightarrow>
         parsePointer ?h sample_spine (Element 4 ''ptr'' []) = Inl MalformedTarget)"
    by blast
  moreover have "getNamedItem ?h (addr_of (Element 4 ''ptr'' [])) ''target'' = Some ''doc.xml''"
    by code_simp
  moreover have "count_list ''doc.xml'' (CHR ''#'') \<noteq> 1" by simp
  moreover have "parsePointer ?h sample_spine (Element 4 ''ptr'' []) = Inl MissingWitness"
    by code_simp
  ultimately show False by simp
qed

text \<open>
  C4, as the code has it: a successful parse checks that the attributes are there, not
  that they are non-empty. The id of the apparatus is the value of the \<^verbatim>\<open>xml:id\<close>
  attribute the \<^verbatim>\<open>app\<close> element carries; for every pointer, the parent of its element
  is a \<^verbatim>\<open>rdg\<close> that carries a witness attribute, the parent of that is a
  \<^verbatim>\<open>rdgGrp\<close> whose \<^verbatim>\<open>xml:id\<close> attribute has the value \<^verbatim>\<open>groupId\<close>, and the
  target attribute is \<^verbatim>\<open>referencedUrl\<close>, one \<^verbatim>\<open>#\<close>, \<^verbatim>\<open>referencedTarget\<close>, neither
  part holding a \<^verbatim>\<open>#\<close>. Each of these strings may be empty.
\<close>

theorem newApparatus_fields:
  assumes "newApparatus pI h doc el = Inr app"
  shows "getNamedItem h (addr_of el) ''xml:id'' = Some (id_app app)
       \<and> (\<forall>p \<in> set (pointers app).
            \<exists>rdg grp. parentNode doc (ptrElement p) = Some rdg \<and> tagName rdg = ''rdg''
              \<and> getNamedItem h (addr_of rdg) ''wit'' \<noteq> None
              \<and> parentNode doc (addr_of rdg) = Some grp \<and> tagName grp = ''rdgGrp''
              \<and> getNamedItem h (addr_of grp) ''xml:id'' = Some (groupId p)
              \<and> getNamedItem h (ptrElement p) ''target'' = Some (referencedUrl p @ ''#'' @ referencedTarget p)
              \<and> CHR ''#'' \<notin> set (referencedUrl p) \<and> CHR ''#'' \<notin> set (referencedTarget p))"
proof -
  from assms obtain ptrs where
    i: "getNamedItem h (addr_of el) ''xml:id'' = Some (id_app app)"
    and m: "mapE (parsePointer h doc) (getElementsByTagName el ''ptr'') = Inr ptrs"
    and p: "pointers app = ptrs"
    by (auto simp: newApparatus_def parsePointers_def split: option.splits sum.splits)
  from m have "\<forall>p \<in> set ptrs. \<exists>x. parsePointer h doc x = Inr p"
    by (blast dest: mapE_Inr_set)
  with i p show ?thesis
    by (auto dest!: parsePointer_Inr)
qed

theorem newApparatus_fields_witness:
  "newApparatus sample_parseInt (sample_attrs ''doc.xml#w1'' ''doc.xml#w1'' ''doc.xml#w2'') sample_spine
       (Element 7 ''app'' [Element 8 ''rdgGrp'' [Element 9 ''rdg'' [Element 10 ''ptr'' []]]])
     = Inr \<lparr>id_app = ''A2'', n_app = None, element = 7,
            pointers = [\<lparr>ptrElement = 10, groupId = ''G2'',
                         edition = Some \<lparr>code = ''1823'', name = ''1823'', chunks = [1, 2, 3, 4, 5, 6, 7, 8, 9, 10]\<rparr>,
                         referencedUrl = ''doc.xml'', referencedTarget = ''w2'',
                         dereferenced = None\<rparr>]\<rparr>
   \<and> getNamedItem (sample_attrs ''doc.xml#w1'' ''doc.xml#w1'' ''doc.xml#w2'') 7 ''xml:id'' = Some ''A2''
   \<and> (\<exists>rdg grp. parentNode sample_spine 10 = Some rdg \<and> tagName rdg = ''rdg''
         \<and> getNamedItem (sample_attrs ''doc.xml#w1'' ''doc.xml#w1'' ''doc.xml#w2'') (addr_of rdg) ''wit'' \<noteq> None
         \<and> parentNode sample_spine (addr_of rdg) = Some grp \<and> tagName grp = ''rdgGrp''
         \<and> getNamedItem (sample_attrs ''doc.xml#w1'' ''doc.xml#w1'' ''doc.xml#w2'') (addr_of grp) ''xml:id'' = Some ''G2''
         \<and> getNamedItem (sample_attrs ''doc.xml#w1'' ''doc.xml#w1'' ''doc.xml#w2'') 10 ''target'' = Some ''doc.xml#w2'')"
proof -
  have run: "newApparatus sample_parseInt (sample_attrs ''doc.xml#w1'' ''doc.xml#w1'' ''doc.xml#w2'') sample_spine
       (Element 7 ''app'' [Element 8 ''rdgGrp'' [Element 9 ''rdg'' [Element 10 ''ptr'' []]]])
     = Inr \<lparr>id_app = ''A2'', n_app = None, element = 7,
            pointers = [\<lparr>ptrElement = 10, groupId = ''G2'',
                         edition = Some \<lparr>code = ''1823'', name = ''1823'', chunks = [1, 2, 3, 4, 5, 6, 7, 8, 9, 10]\<rparr>,
                         referencedUrl = ''doc.xml'', referencedTarget = ''w2'',
                         dereferenced = None\<rparr>]\<rparr>"
    by code_simp
  from newApparatus_fields [OF run] run show ?thesis by simp
qed

text \<open>
  C4 as stated fails: the second apparatus entry of the small world with an empty
  \<^verbatim>\<open>xml:id\<close> on the \<^verbatim>\<open>app\<close> and on the \<^verbatim>\<open>rdgGrp\<close> and with the target
  \<^verbatim>\<open>#w1\<close> parses with success; its id, the group id and the URL of its pointer are
  empty strings.
\<close>

theorem newApparatus_empty_id:
  "\<not> (\<forall>pI h doc el app. newApparatus pI h doc el = Inr app \<longrightarrow>
        id_app app \<noteq> [] \<and> (\<forall>p \<in> set (pointers app). groupId p \<noteq> [] \<and> edition p \<noteq> None \<and> referencedUrl p \<noteq> []))"
proof
  assume a: "\<forall>pI h doc el app. newApparatus pI h doc el = Inr app \<longrightarrow>
        id_app app \<noteq> [] \<and> (\<forall>p \<in> set (pointers app). groupId p \<noteq> [] \<and> edition p \<noteq> None \<and> referencedUrl p \<noteq> [])"
  have "newApparatus sample_parseInt
          ((sample_attrs ''#w1'' ''doc.xml#w1'' ''#w1'')(7 := [''xml:id'' \<mapsto> ''''], 8 := [''xml:id'' \<mapsto> '''']))
          sample_spine
          (Element 7 ''app'' [Element 8 ''rdgGrp'' [Element 9 ''rdg'' [Element 10 ''ptr'' []]]])
        = Inr \<lparr>id_app = '''', n_app = None, element = 7,
            pointers = [\<lparr>ptrElement = 10, groupId = '''',
                         edition = Some \<lparr>code = ''1823'', name = ''1823'', chunks = [1, 2, 3, 4, 5, 6, 7, 8, 9, 10]\<rparr>,
                         referencedUrl = '''', referencedTarget = ''w1'',
                         dereferenced = None\<rparr>]\<rparr>"
    by code_simp
  from a [rule_format, OF this] show False by simp
qed

section \<open>Back-reference injection\<close>

lemma backptrs_ptrs_None:
  "backptrs_ptrs aid ps s = (None, s') \<Longrightarrow> \<forall>p \<in> set ps. dereferenced p \<noteq> Some OtherNode"
  by (induction ps arbitrary: s) (auto split: option.splits node.splits)

lemma backptrs_ptrs_ok:
  "\<forall>p \<in> set ps. dereferenced p \<noteq> Some OtherNode \<Longrightarrow> fst (backptrs_ptrs aid ps s) = None"
  by (induction ps arbitrary: s) (auto split: option.splits node.splits)

lemma backptrs_ptrs_frame:
  "snd (backptrs_ptrs aid ps s)
     = s\<lparr>attrs := attrs (snd (backptrs_ptrs aid ps s)),
         console := console (snd (backptrs_ptrs aid ps s))\<rparr>"
proof (induction ps arbitrary: s)
  case Nil
  then show ?case by simp
next
  case (Cons p ps)
  show ?case
  proof (cases "dereferenced p")
    case None
    with Cons [of "console_log ''Non dereferenced pointed in addBackPointers - pointers should all be dereferenced by now'' s"]
    show ?thesis by (simp add: console_log_def)
  next
    case (Some nd)
    show ?thesis
    proof (cases nd)
      case (ElementNode el)
      with Some Cons [of "setAttribute el ''app-ref'' (aid) s"]
      show ?thesis by (simp add: setAttribute_def)
    next
      case OtherNode
      with Some show ?thesis by simp
    qed
  qed
qed

lemma backptrs_ptrs_attrs:
  "\<forall>p \<in> set ps. dereferenced p \<noteq> Some OtherNode \<Longrightarrow>
   attrs (snd (backptrs_ptrs aid ps s)) e k =
     (if k = ''app-ref'' \<and> Some (ElementNode e) \<in> dereferenced ` set ps then Some aid else attrs s e k)"
proof (induction ps arbitrary: s)
  case Nil
  then show ?case by simp
next
  case (Cons p ps)
  then have rest: "\<forall>p \<in> set ps. dereferenced p \<noteq> Some OtherNode" by simp
  show ?case
  proof (cases "dereferenced p")
    case None
    then show ?thesis by (simp add: Cons.IH [OF rest] console_log_def)
  next
    case (Some nd)
    with Cons.prems obtain el where "nd = ElementNode el" by (cases nd) auto
    with Some show ?thesis by (auto simp: Cons.IH [OF rest] setAttribute_def)
  qed
qed

lemma backptrs_ptrs_console:
  "\<forall>p \<in> set ps. dereferenced p \<noteq> Some OtherNode \<Longrightarrow>
   console (snd (backptrs_ptrs aid ps s)) =
     console s @ replicate (length (filter (\<lambda>p. dereferenced p = None) ps))
       ''Non dereferenced pointed in addBackPointers - pointers should all be dereferenced by now''"
proof (induction ps arbitrary: s)
  case Nil
  then show ?case by simp
next
  case (Cons p ps)
  then have rest: "\<forall>p \<in> set ps. dereferenced p \<noteq> Some OtherNode" by simp
  show ?case
  proof (cases "dereferenced p")
    case None
    then show ?thesis by (simp add: Cons.IH [OF rest] console_log_def replicate_append_same)
  next
    case (Some nd)
    with Cons.prems obtain el where "nd = ElementNode el" by (cases nd) auto
    with Some show ?thesis by (simp add: Cons.IH [OF rest] setAttribute_def)
  qed
qed

lemma backptrs_apps_None:
  "backptrs_apps apps s = (None, s') \<Longrightarrow>
     \<forall>a \<in> set apps. \<forall>p \<in> set (pointers a). dereferenced p \<noteq> Some OtherNode"
proof (induction apps arbitrary: s)
  case Nil
  then show ?case by simp
next
  case (Cons a apps)
  from Cons.prems obtain s1 where 1: "backptrs_ptrs (id_app a) (pointers a) s = (None, s1)"
    and 2: "backptrs_apps apps s1 = (None, s')"
    by (auto split: prod.splits option.splits)
  from backptrs_ptrs_None [OF 1] Cons.IH [OF 2] show ?case by simp
qed

lemma backptrs_apps_ok:
  "\<forall>a \<in> set apps. \<forall>p \<in> set (pointers a). dereferenced p \<noteq> Some OtherNode \<Longrightarrow>
     fst (backptrs_apps apps s) = None"
proof (induction apps arbitrary: s)
  case Nil
  then show ?case by simp
next
  case (Cons a apps)
  then have "fst (backptrs_ptrs (id_app a) (pointers a) s) = None"
    by (simp add: backptrs_ptrs_ok)
  then obtain s1 where "backptrs_ptrs (id_app a) (pointers a) s = (None, s1)"
    by (cases "backptrs_ptrs (id_app a) (pointers a) s") auto
  with Cons show ?case by simp
qed

lemma backptrs_apps_frame:
  "snd (backptrs_apps apps s)
     = s\<lparr>attrs := attrs (snd (backptrs_apps apps s)),
         console := console (snd (backptrs_apps apps s))\<rparr>"
proof (induction apps arbitrary: s)
  case Nil
  then show ?case by simp
next
  case (Cons a apps)
  obtain r s1 where 1: "backptrs_ptrs (id_app a) (pointers a) s = (r, s1)"
    by (cases "backptrs_ptrs (id_app a) (pointers a) s")
  from backptrs_ptrs_frame [of "id_app a" "pointers a" s] 1
  have f1: "s1 = s\<lparr>attrs := attrs s1, console := console s1\<rparr>" by simp
  show ?case
  proof (cases r)
    case None
    with 1 have e: "backptrs_apps (a # apps) s = backptrs_apps apps s1" by simp
    from Cons [of s1] have "snd (backptrs_apps apps s1)
       = s1\<lparr>attrs := attrs (snd (backptrs_apps apps s1)), console := console (snd (backptrs_apps apps s1))\<rparr>" .
    also have "\<dots> = s\<lparr>attrs := attrs (snd (backptrs_apps apps s1)), console := console (snd (backptrs_apps apps s1))\<rparr>"
      by (subst f1) simp
    finally show ?thesis unfolding e .
  next
    case (Some err)
    with 1 f1 show ?thesis by simp
  qed
qed

lemma backptrs_apps_attrs:
  "\<forall>a \<in> set apps. \<forall>p \<in> set (pointers a). dereferenced p \<noteq> Some OtherNode \<Longrightarrow>
   attrs (snd (backptrs_apps apps s)) e k =
     (if k = ''app-ref'' \<and> filter (\<lambda>a. Some (ElementNode e) \<in> dereferenced ` set (pointers a)) apps \<noteq> []
      then Some (id_app (last (filter (\<lambda>a. Some (ElementNode e) \<in> dereferenced ` set (pointers a)) apps)))
      else attrs s e k)"
proof (induction apps arbitrary: s)
  case Nil
  then show ?case by simp
next
  case (Cons a apps)
  then have here: "\<forall>p \<in> set (pointers a). dereferenced p \<noteq> Some OtherNode"
    and rest: "\<forall>a \<in> set apps. \<forall>p \<in> set (pointers a). dereferenced p \<noteq> Some OtherNode" by simp_all
  obtain s1 where 1: "backptrs_ptrs (id_app a) (pointers a) s = (None, s1)"
    using backptrs_ptrs_ok [OF here, of "id_app a" s]
    by (cases "backptrs_ptrs (id_app a) (pointers a) s") auto
  from backptrs_ptrs_attrs [OF here, of "id_app a" s e k] 1
  have a1: "attrs s1 e k = (if k = ''app-ref'' \<and> Some (ElementNode e) \<in> dereferenced ` set (pointers a)
                            then Some (id_app a) else attrs s e k)" by simp
  from 1 have e: "backptrs_apps (a # apps) s = backptrs_apps apps s1" by simp
  from Cons.IH [OF rest, of s1] a1 show ?case unfolding e by auto
qed

lemma backptrs_apps_console:
  "\<forall>a \<in> set apps. \<forall>p \<in> set (pointers a). dereferenced p \<noteq> Some OtherNode \<Longrightarrow>
   console (snd (backptrs_apps apps s)) =
     console s @ replicate (length (filter (\<lambda>p. dereferenced p = None) (concat (map pointers apps))))
       ''Non dereferenced pointed in addBackPointers - pointers should all be dereferenced by now''"
proof (induction apps arbitrary: s)
  case Nil
  then show ?case by simp
next
  case (Cons a apps)
  then have here: "\<forall>p \<in> set (pointers a). dereferenced p \<noteq> Some OtherNode"
    and rest: "\<forall>a \<in> set apps. \<forall>p \<in> set (pointers a). dereferenced p \<noteq> Some OtherNode" by simp_all
  obtain s1 where 1: "backptrs_ptrs (id_app a) (pointers a) s = (None, s1)"
    using backptrs_ptrs_ok [OF here, of "id_app a" s]
    by (cases "backptrs_ptrs (id_app a) (pointers a) s") auto
  from backptrs_ptrs_console [OF here, of "id_app a" s] 1
  have c1: "console s1 = console s @ replicate (length (filter (\<lambda>p. dereferenced p = None) (pointers a)))
       ''Non dereferenced pointed in addBackPointers - pointers should all be dereferenced by now''" by simp
  from 1 have e: "backptrs_apps (a # apps) s = backptrs_apps apps s1" by simp
  from Cons.IH [OF rest, of s1] c1 show ?case unfolding e by (simp add: replicate_add)
qed

lemma claimed_iff:
  "filter (\<lambda>a. x \<in> dereferenced ` set (pointers a)) apps \<noteq> []
     \<longleftrightarrow> x \<in> dereferenced ` set (concat (map pointers apps))"
  by (auto simp: filter_empty_conv)

text \<open>
  C5, as the code has it: in \<^verbatim>\<open>addBackPointers\<close> a pointer with no resolved element
  is reported on the console and skipped, and the phase goes on. When every handle that
  is set is an element, the phase ends normally, however many pointers have no handle;
  it writes one console line for each of them; and afterwards the \<^verbatim>\<open>app-ref\<close> of
  every element that some pointer of the chunk is resolved to, before or after an
  unresolved pointer, is the id of the last apparatus entry with a pointer resolved to
  it, while every other attribute of every element is as it was.
\<close>

theorem addBackPointers_skips_unresolved:
  assumes "priv_apps s = Some apps"
    and "\<forall>a \<in> set apps. \<forall>p \<in> set (pointers a). dereferenced p \<noteq> Some OtherNode"
  shows "fst (addBackPointers s) = None
       \<and> console (snd (addBackPointers s)) =
           console s @ replicate (length (filter (\<lambda>p. dereferenced p = None) (concat (map pointers apps))))
             ''Non dereferenced pointed in addBackPointers - pointers should all be dereferenced by now''
       \<and> (\<forall>e k. attrs (snd (addBackPointers s)) e k =
             (if k = ''app-ref'' \<and> Some (ElementNode e) \<in> dereferenced ` set (concat (map pointers apps))
              then Some (id_app (last (filter (\<lambda>a. Some (ElementNode e) \<in> dereferenced ` set (pointers a)) apps)))
              else attrs s e k))"
proof -
  from assms(1) have run: "addBackPointers s = backptrs_apps apps s"
    by (simp add: addBackPointers_def)
  have "\<forall>e k. attrs (snd (backptrs_apps apps s)) e k =
             (if k = ''app-ref'' \<and> Some (ElementNode e) \<in> dereferenced ` set (concat (map pointers apps))
              then Some (id_app (last (filter (\<lambda>a. Some (ElementNode e) \<in> dereferenced ` set (pointers a)) apps)))
              else attrs s e k)"
  proof (intro allI)
    fix e k
    from backptrs_apps_attrs [OF assms(2), of s e k] claimed_iff [of "Some (ElementNode e)" apps]
    show "attrs (snd (backptrs_apps apps s)) e k =
             (if k = ''app-ref'' \<and> Some (ElementNode e) \<in> dereferenced ` set (concat (map pointers apps))
              then Some (id_app (last (filter (\<lambda>a. Some (ElementNode e) \<in> dereferenced ` set (pointers a)) apps)))
              else attrs s e k)"
      by auto
  qed
  with backptrs_apps_ok [OF assms(2), of s] backptrs_apps_console [OF assms(2), of s]
  show ?thesis unfolding run by blast
qed

theorem addBackPointers_skips_unresolved_witness:
  "fst (addBackPointers ((sample_state ''doc.xml#w1'' ''doc.xml#w1'' ''doc.xml#w1'')
          \<lparr>priv_apps := Some
             [\<lparr>id_app = ''A1'', n_app = None, element = 1,
                pointers = [\<lparr>ptrElement = 4, groupId = ''G1'', edition = None,
                             referencedUrl = ''doc.xml'', referencedTarget = ''w1'',
                             dereferenced = None\<rparr>,
                            \<lparr>ptrElement = 6, groupId = ''G1'', edition = None,
                             referencedUrl = ''doc.xml'', referencedTarget = ''w1'',
                             dereferenced = Some (ElementNode 21)\<rparr>]\<rparr>,
              \<lparr>id_app = ''A2'', n_app = None, element = 7,
                pointers = [\<lparr>ptrElement = 10, groupId = ''G2'', edition = None,
                             referencedUrl = ''doc.xml'', referencedTarget = ''w2'',
                             dereferenced = Some (ElementNode 22)\<rparr>]\<rparr>]\<rparr>)) = None
   \<and> console (snd (addBackPointers ((sample_state ''doc.xml#w1'' ''doc.xml#w1'' ''doc.xml#w1'')
          \<lparr>priv_apps := Some
             [\<lparr>id_app = ''A1'', n_app = None, element = 1,
                pointers = [\<lparr>ptrElement = 4, groupId = ''G1'', edition = None,
                             referencedUrl = ''doc.xml'', referencedTarget = ''w1'',
                             dereferenced = None\<rparr>,
                            \<lparr>ptrElement = 6, groupId = ''G1'', edition = None,
                             referencedUrl = ''doc.xml'', referencedTarget = ''w1'',
                             dereferenced = Some (ElementNode 21)\<rparr>]\<rparr>,
              \<lparr>id_app = ''A2'', n_app = None, element = 7,
                pointers = [\<lparr>ptrElement = 10, groupId = ''G2'', edition = None,
                             referencedUrl = ''doc.xml'', referencedTarget = ''w2'',
                             dereferenced = Some (ElementNode 22)\<rparr>]\<rparr>]\<rparr>)))
       = [''Non dereferenced pointed in addBackPointers - pointers should all be dereferenced by now'']
   \<and> attrs (snd (addBackPointers ((sample_state ''doc.xml#w1'' ''doc.xml#w1'' ''doc.xml#w1'')
          \<lparr>priv_apps := Some
             [\<lparr>id_app = ''A1'', n_app = None, element = 1,
                pointers = [\<lparr>ptrElement = 4, groupId = ''G1'', edition = None,
                             referencedUrl = ''doc.xml'', referencedTarget = ''w1'',
                             dereferenced = None\<rparr>,
                            \<lparr>ptrElement = 6, groupId = ''G1'', edition = None,
                             referencedUrl = ''doc.xml'', referencedTarget = ''w1'',
                             dereferenced = Some (ElementNode 21)\<rparr>]\<rparr>,
              \<lparr>id_app = ''A2'', n_app = None, element = 7,
                pointers = [\<lparr>ptrElement = 10, groupId = ''G2'', edition = None,
                             referencedUrl = ''doc.xml'', referencedTarget = ''w2'',
                             dereferenced = Some (ElementNode 22)\<rparr>]\<rparr>]\<rparr>))) 21 ''app-ref'' = Some ''A1''
   \<and> attrs (snd (addBackPointers ((sample_state ''doc.xml#w1'' ''doc.xml#w1'' ''doc.xml#w1'')
          \<lparr>priv_apps := Some
             [\<lparr>id_app = ''A1'', n_app = None, element = 1,
                pointers = [\<lparr>ptrElement = 4, groupId = ''G1'', edition = None,
                             referencedUrl = ''doc.xml'', referencedTarget = ''w1'',
                             dereferenced = None\<rparr>,
                            \<lparr>ptrElement = 6, groupId = ''G1'', edition = None,
                             referencedUrl = ''doc.xml'', referencedTarget = ''w1'',
                             dereferenced = Some (ElementNode 21)\<rparr>]\<rparr>,
              \<lparr>id_app = ''A2'', n_app = None, element = 7,
                pointers = [\<lparr>ptrElement = 10, groupId = ''G2'', edition = None,
                             referencedUrl = ''doc.xml'', referencedTarget = ''w2'',
                             dereferenced = Some (ElementNode 22)\<rparr>]\<rparr>]\<rparr>))) 22 ''app-ref'' = Some ''A2''
   \<and> attrs (snd (addBackPointers ((sample_state ''doc.xml#w1'' ''doc.xml#w1'' ''doc.xml#w1'')
          \<lparr>priv_apps := Some
             [\<lparr>id_app = ''A1'', n_app = None, element = 1,
                pointers = [\<lparr>ptrElement = 4, groupId = ''G1'', edition = None,
                             referencedUrl = ''doc.xml'', referencedTarget = ''w1'',
                             dereferenced = None\<rparr>,
                            \<lparr>ptrElement = 6, groupId = ''G1'', edition = None,
                             referencedUrl = ''doc.xml'', referencedTarget = ''w1'',
                             dereferenced = Some (ElementNode 21)\<rparr>]\<rparr>,
              \<lparr>id_app = ''A2'', n_app = None, element = 7,
                pointers = [\<lparr>ptrElement = 10, groupId = ''G2'', edition = None,
                             referencedUrl = ''doc.xml'', referencedTarget = ''w2'',
                             dereferenced = Some (ElementNode 22)\<rparr>]\<rparr>]\<rparr>))) 20 ''app-ref'' = None"
proof -
  let ?apps = "[\<lparr>id_app = ''A1'', n_app = None, element = 1,
                pointers = [\<lparr>ptrElement = 4, groupId = ''G1'', edition = None,
                             referencedUrl = ''doc.xml'', referencedTarget = ''w1'',
                             dereferenced = None\<rparr>,
                            \<lparr>ptrElement = 6, groupId = ''G1'', edition = None,
                             referencedUrl = ''doc.xml'', referencedTarget = ''w1'',
                             dereferenced = Some (ElementNode 21)\<rparr>]\<rparr>,
              \<lparr>id_app = ''A2'', n_app = None, element = 7,
                pointers = [\<lparr>ptrElement = 10, groupId = ''G2'', edition = None,
                             referencedUrl = ''doc.xml'', referencedTarget = ''w2'',
                             dereferenced = Some (ElementNode 22)\<rparr>]\<rparr>]"
  let ?s = "(sample_state ''doc.xml#w1'' ''doc.xml#w1'' ''doc.xml#w1'')\<lparr>priv_apps := Some ?apps\<rparr>"
  have 1: "priv_apps ?s = Some ?apps" by simp
  have 2: "\<forall>a \<in> set ?apps. \<forall>p \<in> set (pointers a). dereferenced p \<noteq> Some OtherNode" by simp
  have 3: "attrs ?s 20 ''app-ref'' = None" by (simp add: sample_state_def sample_attrs_def)
  have 4: "console ?s = []" by (simp add: sample_state_def)
  note r = addBackPointers_skips_unresolved [OF 1 2]
  from r have a: "fst (addBackPointers ?s) = None" by blast
  from r 4 have b: "console (snd (addBackPointers ?s))
       = [''Non dereferenced pointed in addBackPointers - pointers should all be dereferenced by now'']"
    by simp
  from r have att: "\<And>e k. attrs (snd (addBackPointers ?s)) e k =
             (if k = ''app-ref'' \<and> Some (ElementNode e) \<in> dereferenced ` set (concat (map pointers ?apps))
              then Some (id_app (last (filter (\<lambda>a. Some (ElementNode e) \<in> dereferenced ` set (pointers a)) ?apps)))
              else attrs ?s e k)"
    by blast
  have c: "attrs (snd (addBackPointers ?s)) 21 ''app-ref'' = Some ''A1''"
    by (subst att) simp
  have d: "attrs (snd (addBackPointers ?s)) 22 ''app-ref'' = Some ''A2''"
    by (subst att) simp
  have e: "attrs (snd (addBackPointers ?s)) 20 ''app-ref'' = None"
    using 3 by (subst att) simp
  from a b c d e show ?thesis by blast
qed

text \<open>
  C5 as stated fails: with one apparatus entry whose only pointer has no resolved
  element, \<^verbatim>\<open>addBackPointers\<close> raises nothing.
\<close>

theorem addBackPointers_unresolved_no_raise:
  "\<not> (\<forall>s apps a p. priv_apps s = Some apps \<and> a \<in> set apps \<and> p \<in> set (pointers a)
          \<and> dereferenced p = None \<longrightarrow> fst (addBackPointers s) \<noteq> None)"
proof
  let ?p = "\<lparr>ptrElement = 10, groupId = ''G2'', edition = None,
                           referencedUrl = ''doc.xml'', referencedTarget = ''w1'',
                           dereferenced = None\<rparr>"
  let ?a = "\<lparr>id_app = ''A2'', n_app = None, element = 7, pointers = [?p]\<rparr>"
  let ?s = "(sample_state ''doc.xml#w1'' ''doc.xml#w1'' ''doc.xml#w1'')\<lparr>priv_apps := Some [?a]\<rparr>"
  assume "\<forall>s apps a p. priv_apps s = Some apps \<and> a \<in> set apps \<and> p \<in> set (pointers a)
          \<and> dereferenced p = None \<longrightarrow> fst (addBackPointers s) \<noteq> None"
  then have "priv_apps ?s = Some [?a] \<and> ?a \<in> set [?a] \<and> ?p \<in> set (pointers ?a)
          \<and> dereferenced ?p = None \<longrightarrow> fst (addBackPointers ?s) \<noteq> None"
    by blast
  then have "fst (addBackPointers ?s) \<noteq> None" by simp
  moreover have "fst (addBackPointers ?s) = None"
    by (simp add: addBackPointers_def console_log_def)
  ultimately show False by simp
qed

section \<open>The cache and the dereference phase\<close>

lemma cache_getXML_fields:
  "cache_getXML E u s = (r, s1) \<Longrightarrow>
     attrs s1 = attrs s \<and> mockElementCount s1 = mockElementCount s \<and> console s1 = console s
     \<and> chunkNumber s1 = chunkNumber s \<and> priv_apps s1 = priv_apps s \<and> priv_xml s1 = priv_xml s
     \<and> priv_initialized s1 = priv_initialized s"
  by (auto simp: cache_getXML_def Let_def split: option.splits)

lemma cache_getXML_keeps:
  "cache_getXML E u s = (r, s1) \<Longrightarrow> cache s v = Some d \<Longrightarrow> cache s1 v = Some d"
  by (auto simp: cache_getXML_def Let_def split: option.splits)

lemma cache_getXML_hit:
  "cache s u = Some d \<Longrightarrow> cache_getXML E u s = (Some d, s)"
  by (simp add: cache_getXML_def)

lemma deref_ptrs_resolved:
  "deref_ptrs E ps s = (None, ps', s') \<Longrightarrow> \<forall>p \<in> set ps'. dereferenced p \<noteq> None"
proof (induction ps arbitrary: s ps')
  case Nil
  then show ?case by simp
next
  case (Cons p ps)
  from Cons.prems obtain doc s1 el ps1 where
    "deref_ptrs E ps s1 = (None, ps1, s')" and "ps' = p\<lparr>dereferenced := Some el\<rparr> # ps1"
    by (auto split: prod.splits option.splits sum.splits)
  with Cons.IH show ?case by auto
qed

lemma deref_apps_resolved:
  "deref_apps E apps s = (None, apps', s') \<Longrightarrow>
     \<forall>a \<in> set apps'. \<forall>p \<in> set (pointers a). dereferenced p \<noteq> None"
proof (induction apps arbitrary: s apps')
  case Nil
  then show ?case by simp
next
  case (Cons a apps)
  from Cons.prems obtain ps1 s1 apps1 where
    1: "deref_ptrs E (pointers a) s = (None, ps1, s1)"
    and 2: "deref_apps E apps s1 = (None, apps1, s')"
    and 3: "apps' = a\<lparr>pointers := ps1\<rparr> # apps1"
    by (auto split: prod.splits option.splits)
  from deref_ptrs_resolved [OF 1] Cons.IH [OF 2] 3 show ?case by simp
qed

lemma deref_ptrs_frame:
  "deref_ptrs E ps s = (r, ps', s') \<Longrightarrow>
     attrs s' = attrs s \<and> priv_initialized s' = priv_initialized s
     \<and> (\<forall>v d. cache s v = Some d \<longrightarrow> cache s' v = Some d)
     \<and> map ptrElement ps' = map ptrElement ps"
proof (induction ps arbitrary: s r ps' s')
  case Nil
  then show ?case by simp
next
  case (Cons p ps)
  obtain g s1 where g: "cache_getXML E (referencedUrl p) s = (g, s1)"
    by (cases "cache_getXML E (referencedUrl p) s")
  note f = cache_getXML_fields [OF g] cache_getXML_keeps [OF g]
  show ?case
  proof (cases g)
    case None
    with Cons.prems g f show ?thesis by auto
  next
    case (Some doc)
    show ?thesis
    proof (cases "findElementByXmlId E s1 doc (referencedTarget p)")
      case (Inl e)
      with Cons.prems g Some f show ?thesis by auto
    next
      case (Inr el)
      obtain r1 ps1 s2 where rec: "deref_ptrs E ps s1 = (r1, ps1, s2)"
        by (cases "deref_ptrs E ps s1")
      from Cons.IH [OF rec] f have "attrs s2 = attrs s \<and> priv_initialized s2 = priv_initialized s
         \<and> (\<forall>v d. cache s v = Some d \<longrightarrow> cache s2 v = Some d) \<and> map ptrElement ps1 = map ptrElement ps"
        by auto
      with Cons.prems g Some Inr rec show ?thesis by auto
    qed
  qed
qed

lemma findElementByXmlId_count:
  assumes "evaluateXPath E s doc (''//*[@xml:id='' @ [CHR 0x22] @ x @ [CHR 0x22] @ '']'') = Some ns"
    and "length ns \<noteq> 1"
  shows "findElementByXmlId E s doc x = Inl (if length ns = 0 then InvalidElement else AmbiguousElement)"
  using assms by (cases ns) (auto simp: findElementByXmlId_def Let_def)

lemma deref_ptrs_fails:
  assumes "p \<in> set ps" and "cache s (referencedUrl p) = Some doc"
    and "evaluate E (attrs s) doc (''//*[@xml:id='' @ [CHR 0x22] @ referencedTarget p @ [CHR 0x22] @ '']'') = Some ns"
    and "length ns \<noteq> 1"
  shows "fst (deref_ptrs E ps s) \<noteq> None"
  using assms
proof (induction ps arbitrary: s)
  case Nil
  then show ?case by simp
next
  case (Cons q qs)
  obtain g s1 where g: "cache_getXML E (referencedUrl q) s = (g, s1)"
    by (cases "cache_getXML E (referencedUrl q) s")
  note f = cache_getXML_fields [OF g] cache_getXML_keeps [OF g]
  show ?case
  proof (cases g)
    case None
    with g show ?thesis by simp
  next
    case (Some d)
    show ?thesis
    proof (cases "findElementByXmlId E s1 d (referencedTarget q)")
      case (Inl e)
      with g Some show ?thesis by simp
    next
      case (Inr el)
      have "p \<noteq> q"
      proof
        assume "p = q"
        with Cons.prems(2) g Some have "d = doc" and "s1 = s"
          by (simp_all add: cache_getXML_hit)
        with Cons.prems(3,4) \<open>p = q\<close> have "findElementByXmlId E s1 d (referencedTarget q) \<noteq> Inr el"
          by (simp add: findElementByXmlId_count evaluateXPath_def)
        with Inr show False by simp
      qed
      with Cons.prems(1) have "p \<in> set qs" by simp
      moreover from f Cons.prems(2) have "cache s1 (referencedUrl p) = Some doc" by simp
      moreover from f Cons.prems(3) have "evaluate E (attrs s1) doc
        (''//*[@xml:id='' @ [CHR 0x22] @ referencedTarget p @ [CHR 0x22] @ '']'') = Some ns" by simp
      ultimately have "fst (deref_ptrs E qs s1) \<noteq> None"
        using Cons.prems(4) by (rule Cons.IH)
      moreover obtain r2 ps2 s2 where "deref_ptrs E qs s1 = (r2, ps2, s2)"
        by (cases "deref_ptrs E qs s1")
      ultimately show ?thesis using g Some Inr by simp
    qed
  qed
qed

lemma deref_apps_frame:
  "deref_apps E apps s = (r, apps', s') \<Longrightarrow>
     attrs s' = attrs s \<and> priv_initialized s' = priv_initialized s
     \<and> (\<forall>v d. cache s v = Some d \<longrightarrow> cache s' v = Some d)
     \<and> map (\<lambda>a. map ptrElement (pointers a)) apps' = map (\<lambda>a. map ptrElement (pointers a)) apps"
proof (induction apps arbitrary: s r apps' s')
  case Nil
  then show ?case by simp
next
  case (Cons a apps)
  obtain r1 ps1 s1 where 1: "deref_ptrs E (pointers a) s = (r1, ps1, s1)"
    by (cases "deref_ptrs E (pointers a) s")
  note f = deref_ptrs_frame [OF 1]
  show ?case
  proof (cases r1)
    case (Some e)
    with Cons.prems 1 f show ?thesis by auto
  next
    case None
    obtain r2 apps2 s2 where 2: "deref_apps E apps s1 = (r2, apps2, s2)"
      by (cases "deref_apps E apps s1")
    from Cons.IH [OF 2] f have "attrs s2 = attrs s \<and> priv_initialized s2 = priv_initialized s
       \<and> (\<forall>v d. cache s v = Some d \<longrightarrow> cache s2 v = Some d)
       \<and> map (\<lambda>a. map ptrElement (pointers a)) apps2 = map (\<lambda>a. map ptrElement (pointers a)) apps"
      by auto
    with Cons.prems 1 None 2 f show ?thesis by auto
  qed
qed

lemma deref_apps_fails:
  assumes "a \<in> set apps" and "p \<in> set (pointers a)" and "cache s (referencedUrl p) = Some doc"
    and "evaluate E (attrs s) doc (''//*[@xml:id='' @ [CHR 0x22] @ referencedTarget p @ [CHR 0x22] @ '']'') = Some ns"
    and "length ns \<noteq> 1"
  shows "fst (deref_apps E apps s) \<noteq> None"
  using assms
proof (induction apps arbitrary: s)
  case Nil
  then show ?case by simp
next
  case (Cons b bs)
  obtain r1 ps1 s1 where 1: "deref_ptrs E (pointers b) s = (r1, ps1, s1)"
    by (cases "deref_ptrs E (pointers b) s")
  note f = deref_ptrs_frame [OF 1]
  show ?case
  proof (cases r1)
    case (Some e)
    with 1 show ?thesis by simp
  next
    case None
    have "a \<noteq> b"
    proof
      assume "a = b"
      with Cons.prems(2) have "p \<in> set (pointers b)" by simp
      from deref_ptrs_fails [OF this Cons.prems(3) Cons.prems(4) Cons.prems(5)] 1 None
      show False by simp
    qed
    with Cons.prems(1) have "a \<in> set bs" by simp
    moreover from f Cons.prems(3) have "cache s1 (referencedUrl p) = Some doc" by simp
    moreover from f Cons.prems(4) have "evaluate E (attrs s1) doc
        (''//*[@xml:id='' @ [CHR 0x22] @ referencedTarget p @ [CHR 0x22] @ '']'') = Some ns" by simp
    ultimately have "fst (deref_apps E bs s1) \<noteq> None"
      using Cons.prems(2,5) by (intro Cons.IH)
    moreover obtain r2 apps2 s2 where "deref_apps E bs s1 = (r2, apps2, s2)"
      by (cases "deref_apps E bs s1")
    ultimately show ?thesis using 1 None by simp
  qed
qed

lemma backptrs_apps_priv_apps:
  "priv_apps (snd (backptrs_apps apps s)) = priv_apps s"
  by (subst backptrs_apps_frame) simp

lemma initialize_phases:
  assumes "\<not> priv_initialized s" and "initialize E s = (None, s')"
  obtains s4 s5 s6 where "dereferencePointers E s4 = (None, s5)"
    and "addBackPointers s5 = (None, s6)" and "s' = s6\<lparr>priv_initialized := True\<rparr>"
proof -
  from assms obtain s4 s5 s6 where "dereferencePointers E s4 = (None, s5)"
    and "addBackPointers s5 = (None, s6)" and "setInitialized s6 = (None, s')"
    unfolding initialize_def by (auto dest!: andThen_None)
  then show thesis using that by (auto simp: setInitialized_def)
qed

section \<open>Back-references after a full run\<close>

text \<open>
  C3, as the code has it: after a run of \<^verbatim>\<open>initialize\<close> that went through all six
  phases, every pointer left in a pointer list has a handle, the handle is an element,
  and the \<^verbatim>\<open>app-ref\<close> attribute of that element is the id of the last apparatus
  entry of the chunk's list that has a pointer resolved to this element. That is the
  entry owning the pointer unless a later entry points to the same element: the later
  entry overwrites the attribute.
\<close>

theorem initialize_back_references:
  assumes "\<not> priv_initialized s" and "initialize E s = (None, s')"
  shows "\<exists>apps. priv_apps s' = Some apps
       \<and> (\<forall>a \<in> set apps. \<forall>p \<in> set (pointers a).
            \<exists>e. dereferenced p = Some (ElementNode e)
              \<and> attrs s' e ''app-ref'' =
                  Some (id_app (last (filter (\<lambda>b. Some (ElementNode e) \<in> dereferenced ` set (pointers b)) apps))))"
proof -
  from assms obtain s4 s5 s6 where d: "dereferencePointers E s4 = (None, s5)"
    and b: "addBackPointers s5 = (None, s6)" and s': "s' = s6\<lparr>priv_initialized := True\<rparr>"
    by (rule initialize_phases)
  from d obtain apps0 apps t where "deref_apps E apps0 s4 = (None, apps, t)"
    and s5: "priv_apps s5 = Some apps"
    by (auto simp: dereferencePointers_def split: option.splits prod.splits)
  then have res: "\<forall>a \<in> set apps. \<forall>p \<in> set (pointers a). dereferenced p \<noteq> None"
    by (blast dest: deref_apps_resolved)
  from b s5 have run: "backptrs_apps apps s5 = (None, s6)"
    by (simp add: addBackPointers_def)
  then have elems: "\<forall>a \<in> set apps. \<forall>p \<in> set (pointers a). dereferenced p \<noteq> Some OtherNode"
    by (rule backptrs_apps_None)
  from backptrs_apps_priv_apps [of apps s5] run s5 have apps6: "priv_apps s6 = Some apps"
    by simp
  have "\<exists>e. dereferenced p = Some (ElementNode e)
          \<and> attrs s' e ''app-ref'' =
              Some (id_app (last (filter (\<lambda>b. Some (ElementNode e) \<in> dereferenced ` set (pointers b)) apps)))"
    if a: "a \<in> set apps" and p: "p \<in> set (pointers a)" for a p
  proof -
    from res elems a p obtain e where e: "dereferenced p = Some (ElementNode e)"
      by (metis node.exhaust option.exhaust)
    with a p have "filter (\<lambda>b. Some (ElementNode e) \<in> dereferenced ` set (pointers b)) apps \<noteq> []"
      by (force simp: filter_empty_conv)
    with backptrs_apps_attrs [OF elems, of s5 e "''app-ref''"] run s' e show ?thesis by simp
  qed
  with apps6 s' show ?thesis by simp
qed

theorem initialize_back_references_witness:
  "\<not> priv_initialized (sample_state ''doc.xml#w1'' ''doc.xml#w1'' ''doc.xml#w1'')
   \<and> fst (initialize sample_env (sample_state ''doc.xml#w1'' ''doc.xml#w1'' ''doc.xml#w1'')) = None
   \<and> (\<exists>apps. priv_apps (snd (initialize sample_env (sample_state ''doc.xml#w1'' ''doc.xml#w1'' ''doc.xml#w1''))) = Some apps
       \<and> (\<forall>a \<in> set apps. \<forall>p \<in> set (pointers a).
            \<exists>e. dereferenced p = Some (ElementNode e)
              \<and> attrs (snd (initialize sample_env (sample_state ''doc.xml#w1'' ''doc.xml#w1'' ''doc.xml#w1''))) e ''app-ref'' =
                  Some (id_app (last (filter (\<lambda>b. Some (ElementNode e) \<in> dereferenced ` set (pointers b)) apps)))))"
proof -
  let ?s = "sample_state ''doc.xml#w1'' ''doc.xml#w1'' ''doc.xml#w1''"
  have n: "\<not> priv_initialized ?s" by (simp add: sample_state_def)
  have f: "fst (initialize sample_env ?s) = None" by code_simp
  then have run: "initialize sample_env ?s = (None, snd (initialize sample_env ?s))"
    by (simp add: prod_eq_iff)
  from initialize_back_references [OF n run] n f show ?thesis by blast
qed

text \<open>
  C3 as stated fails: in the small world with all three pointers at \<^verbatim>\<open>doc.xml#w1\<close>,
  the run completes, the first pointer of the entry \<^verbatim>\<open>A1\<close> is resolved to the
  paragraph \<^verbatim>\<open>w1\<close>, and the \<^verbatim>\<open>app-ref\<close> of that paragraph is \<^verbatim>\<open>A2\<close>.
\<close>

theorem back_reference_overwritten:
  "\<not> (\<forall>E s s'. \<not> priv_initialized s \<and> initialize E s = (None, s') \<longrightarrow>
        (\<forall>apps a p e. priv_apps s' = Some apps \<and> a \<in> set apps \<and> p \<in> set (pointers a)
            \<and> dereferenced p = Some (ElementNode e) \<longrightarrow> attrs s' e ''app-ref'' = Some (id_app a)))"
proof
  let ?s = "sample_state ''doc.xml#w1'' ''doc.xml#w1'' ''doc.xml#w1''"
  let ?s' = "snd (initialize sample_env ?s)"
  let ?p = "\<lparr>ptrElement = 4, groupId = ''G1'',
             edition = Some \<lparr>code = ''1818'', name = ''1818'', chunks = [1, 2, 3, 4, 5, 6, 7, 8, 9, 10]\<rparr>,
             referencedUrl = ''doc.xml'', referencedTarget = ''w1'', dereferenced = Some (ElementNode 21)\<rparr>"
  let ?a = "\<lparr>id_app = ''A1'', n_app = None, element = 1,
       pointers =
         [?p,
          \<lparr>ptrElement = 6, groupId = ''G1'',
             edition = Some \<lparr>code = ''MS'', name = ''MS'', chunks = [7, 8, 9, 10]\<rparr>,
             referencedUrl = ''doc.xml'', referencedTarget = ''w1'', dereferenced = Some (ElementNode 21)\<rparr>]\<rparr>"
  let ?apps = "[?a,
      \<lparr>id_app = ''A2'', n_app = None, element = 7,
        pointers = [\<lparr>ptrElement = 10, groupId = ''G2'',
             edition = Some \<lparr>code = ''1823'', name = ''1823'', chunks = [1, 2, 3, 4, 5, 6, 7, 8, 9, 10]\<rparr>,
             referencedUrl = ''doc.xml'', referencedTarget = ''w1'', dereferenced = Some (ElementNode 21)\<rparr>]\<rparr>]"
  assume all: "\<forall>E s s'. \<not> priv_initialized s \<and> initialize E s = (None, s') \<longrightarrow>
        (\<forall>apps a p e. priv_apps s' = Some apps \<and> a \<in> set apps \<and> p \<in> set (pointers a)
            \<and> dereferenced p = Some (ElementNode e) \<longrightarrow> attrs s' e ''app-ref'' = Some (id_app a))"
  have n: "\<not> priv_initialized ?s" by (simp add: sample_state_def)
  have "fst (initialize sample_env ?s) = None" by code_simp
  then have run: "initialize sample_env ?s = (None, ?s')" by (simp add: prod_eq_iff)
  have apps: "priv_apps ?s' = Some ?apps" by code_simp
  have ref: "attrs ?s' 21 ''app-ref'' = Some ''A2''" by code_simp
  from all n run have "\<forall>apps a p e. priv_apps ?s' = Some apps \<and> a \<in> set apps \<and> p \<in> set (pointers a)
            \<and> dereferenced p = Some (ElementNode e) \<longrightarrow> attrs ?s' e ''app-ref'' = Some (id_app a)"
    by blast
  then have "priv_apps ?s' = Some ?apps \<and> ?a \<in> set ?apps \<and> ?p \<in> set (pointers ?a)
            \<and> dereferenced ?p = Some (ElementNode 21) \<longrightarrow> attrs ?s' 21 ''app-ref'' = Some (id_app ?a)"
    by blast
  with apps ref show False by simp
qed

section \<open>The range rewrite of one pointer\<close>

text \<open>The result of \<^verbatim>\<open>rewriteStringRange\<close>, path by path.\<close>

lemma rewriteStringRange_no_document:
  "cache_getXML E (referencedUrl ptr) s = (None, s1) \<Longrightarrow>
     rewriteStringRange E ptr rng s = (Inl FetchError, s1)"
  by (simp add: rewriteStringRange_def)

lemma rewriteStringRange_xpath_error:
  "cache_getXML E (referencedUrl ptr) s = (Some doc, s1) \<Longrightarrow>
   evaluateXPath E s1 doc (remove_tei (xpath rng)) = None \<Longrightarrow>
     rewriteStringRange E ptr rng s = (Inl XPathError, s1)"
  by (simp add: rewriteStringRange_def)

lemma rewriteStringRange_no_nodes:
  "cache_getXML E (referencedUrl ptr) s = (Some doc, s1) \<Longrightarrow>
   evaluateXPath E s1 doc (remove_tei (xpath rng)) = Some [] \<Longrightarrow>
     rewriteStringRange E ptr rng s =
       (Inl StringRangeNoNodes,
        console_log (''string-range for xpath '' @ remove_tei (xpath rng) @ '' failed to return a node'') s1)"
  by (simp add: rewriteStringRange_def)

lemma rewriteStringRange_many_nodes:
  "cache_getXML E (referencedUrl ptr) s = (Some doc, s1) \<Longrightarrow>
   evaluateXPath E s1 doc (remove_tei (xpath rng)) = Some (nd # nd' # nds) \<Longrightarrow>
     rewriteStringRange E ptr rng s =
       (Inl StringRangeManyNodes,
        console_log (''string-range for xpath '' @ remove_tei (xpath rng) @ '' returned more than one node'') s1)"
  by (simp add: rewriteStringRange_def)

lemma rewriteStringRange_not_element:
  "cache_getXML E (referencedUrl ptr) s = (Some doc, s1) \<Longrightarrow>
   evaluateXPath E s1 doc (remove_tei (xpath rng)) = Some [OtherNode] \<Longrightarrow>
     rewriteStringRange E ptr rng s = (Inl TypeError, s1)"
  by (simp add: rewriteStringRange_def)

lemma rewriteStringRange_existing_id:
  "cache_getXML E (referencedUrl ptr) s = (Some doc, s1) \<Longrightarrow>
   evaluateXPath E s1 doc (remove_tei (xpath rng)) = Some [ElementNode el] \<Longrightarrow>
   getNamedItem (attrs s1) el ''xml:id'' = Some v \<Longrightarrow>
     rewriteStringRange E ptr rng s =
       (Inr (ptr\<lparr>referencedTarget := v\<rparr>),
        setAttribute (ptrElement ptr) ''target'' (v @ ''#'' @ v) s1)"
  by (simp add: rewriteStringRange_def)

lemma rewriteStringRange_mock_id:
  "cache_getXML E (referencedUrl ptr) s = (Some doc, s1) \<Longrightarrow>
   evaluateXPath E s1 doc (remove_tei (xpath rng)) = Some [ElementNode el] \<Longrightarrow>
   getNamedItem (attrs s1) el ''xml:id'' = None \<Longrightarrow>
     rewriteStringRange E ptr rng s =
       (Inr (ptr\<lparr>referencedTarget := ''mock-id-'' @ string_of_nat (mockElementCount s1)\<rparr>),
        setAttribute (ptrElement ptr) ''target''
          ((''mock-id-'' @ string_of_nat (mockElementCount s1)) @ ''#''
             @ (''mock-id-'' @ string_of_nat (mockElementCount s1)))
          (setAttribute el ''xml:id'' (''mock-id-'' @ string_of_nat (mockElementCount s1))
             (s1\<lparr>mockElementCount := mockElementCount s1 + 1\<rparr>)))"
  by (simp add: rewriteStringRange_def Let_def)

lemma rewriteStringRange_outcome:
  "case rewriteStringRange E ptr rng s of
     (Inl err, s') \<Rightarrow>
        attrs s' = attrs s \<and> mockElementCount s' = mockElementCount s
        \<and> priv_initialized s' = priv_initialized s
   | (Inr ptr', s') \<Rightarrow>
        ptr' = ptr\<lparr>referencedTarget := referencedTarget ptr'\<rparr>
        \<and> attrs s' (ptrElement ptr) ''target'' = Some (referencedTarget ptr' @ ''#'' @ referencedTarget ptr')
        \<and> priv_initialized s' = priv_initialized s"
proof -
  obtain g s1 where g: "cache_getXML E (referencedUrl ptr) s = (g, s1)"
    by (cases "cache_getXML E (referencedUrl ptr) s")
  note f = cache_getXML_fields [OF g]
  show ?thesis
  proof (cases g)
    case None
    with g have "rewriteStringRange E ptr rng s = (Inl FetchError, s1)"
      by (simp add: rewriteStringRange_no_document)
    with f show ?thesis by simp
  next
    case (Some doc)
    with g have g': "cache_getXML E (referencedUrl ptr) s = (Some doc, s1)" by simp
    show ?thesis
    proof (cases "evaluateXPath E s1 doc (remove_tei (xpath rng))")
      case None
      from rewriteStringRange_xpath_error [OF g' None] f show ?thesis by simp
    next
      case ev: (Some ns)
      show ?thesis
      proof (cases ns)
        case Nil
        with ev have "evaluateXPath E s1 doc (remove_tei (xpath rng)) = Some []" by simp
        from rewriteStringRange_no_nodes [OF g' this] f show ?thesis
          by (simp add: console_log_def)
      next
        case (Cons nd rest)
        show ?thesis
        proof (cases rest)
          case (Cons nd' rest')
          with ev \<open>ns = nd # rest\<close>
          have "evaluateXPath E s1 doc (remove_tei (xpath rng)) = Some (nd # nd' # rest')" by simp
          from rewriteStringRange_many_nodes [OF g' this] f show ?thesis
            by (simp add: console_log_def)
        next
          case Nil
          with ev \<open>ns = nd # rest\<close>
          have one: "evaluateXPath E s1 doc (remove_tei (xpath rng)) = Some [nd]" by simp
          show ?thesis
          proof (cases nd)
            case OtherNode
            with one have "evaluateXPath E s1 doc (remove_tei (xpath rng)) = Some [OtherNode]" by simp
            from rewriteStringRange_not_element [OF g' this] f show ?thesis by simp
          next
            case (ElementNode el)
            with one have el: "evaluateXPath E s1 doc (remove_tei (xpath rng)) = Some [ElementNode el]"
              by simp
            show ?thesis
            proof (cases "getNamedItem (attrs s1) el ''xml:id''")
              case None
              from rewriteStringRange_mock_id [OF g' el None] f show ?thesis
                by (simp add: setAttribute_def)
            next
              case v: (Some v)
              from rewriteStringRange_existing_id [OF g' el v] f show ?thesis
                by (simp add: setAttribute_def)
            qed
          qed
        qed
      qed
    qed
  qed
qed

text \<open>
  Two consequences: a rewrite that throws has written no attribute and has not touched
  the id counter; a rewrite that returns has changed nothing of the pointer but its
  \<^verbatim>\<open>referencedTarget\<close>, and has set the target attribute of the pointer's element to
  that new \<^verbatim>\<open>referencedTarget\<close>, a \<^verbatim>\<open>#\<close>, and the same string again.
\<close>

lemma rewriteStringRange_Inl:
  "rewriteStringRange E ptr rng s = (Inl err, s') \<Longrightarrow>
     attrs s' = attrs s \<and> mockElementCount s' = mockElementCount s"
  using rewriteStringRange_outcome [where E=E and ptr=ptr and rng=rng and s=s] by simp

lemma rewriteStringRange_Inr:
  "rewriteStringRange E ptr rng s = (Inr ptr', s') \<Longrightarrow>
     ptr' = ptr\<lparr>referencedTarget := referencedTarget ptr'\<rparr>
     \<and> attrs s' (ptrElement ptr) ''target'' = Some (referencedTarget ptr' @ ''#'' @ referencedTarget ptr')"
  using rewriteStringRange_outcome [where E=E and ptr=ptr and rng=rng and s=s] by simp

lemma rewriteStringRange_initialized:
  "priv_initialized (snd (rewriteStringRange E ptr rng s)) = priv_initialized s"
proof (cases "rewriteStringRange E ptr rng s")
  case (Pair r s')
  with rewriteStringRange_outcome [where E=E and ptr=ptr and rng=rng and s=s]
  show ?thesis by (cases r) simp_all
qed

lemma rewrite_ptrs_initialized:
  "priv_initialized (snd (rewrite_ptrs E ps s)) = priv_initialized s"
proof (induction ps arbitrary: s)
  case Nil
  then show ?case by simp
next
  case (Cons p ps)
  show ?case
  proof (cases "match_string_range (referencedTarget p)")
    case None
    with Cons.IH [of s] show ?thesis by (cases "rewrite_ptrs E ps s") simp
  next
    case (Some m)
    obtain xp st len where m: "m = (xp, st, len)" by (cases m)
    let ?rng = "\<lparr>xpath = xp, start = parseInt E st, length_range = parseInt E len\<rparr>"
    obtain r s1 where 1: "rewriteStringRange E p ?rng s = (r, s1)"
      by (cases "rewriteStringRange E p ?rng s")
    from rewriteStringRange_initialized [of E p ?rng s] 1
    have "priv_initialized s1 = priv_initialized s" by simp
    with Cons.IH [of s1] Some m 1 show ?thesis
      by (cases r; cases "rewrite_ptrs E ps s1") simp_all
  qed
qed

lemma rewrite_apps_initialized:
  "priv_initialized (snd (rewrite_apps E apps s)) = priv_initialized s"
proof (induction apps arbitrary: s)
  case Nil
  then show ?case by simp
next
  case (Cons a apps)
  obtain a' s1 where 1: "rewrite_app E a s = (a', s1)" by (cases "rewrite_app E a s")
  then have "s1 = snd (rewrite_ptrs E (pointers a) s)"
    by (auto simp: rewrite_app_def split: prod.splits)
  then have "priv_initialized s1 = priv_initialized s" by (simp add: rewrite_ptrs_initialized)
  with Cons.IH [of s1] 1 show ?case by (cases "rewrite_apps E apps s1") simp
qed

lemma rewriteStringRanges_initialized:
  "priv_initialized (snd (rewriteStringRanges E s)) = priv_initialized s"
proof (cases "priv_apps s")
  case None
  then show ?thesis by (simp add: rewriteStringRanges_def)
next
  case (Some apps)
  with rewrite_apps_initialized [of E apps s] show ?thesis
    by (cases "rewrite_apps E apps s") (simp add: rewriteStringRanges_def)
qed

lemma getXML_all_initialized:
  "priv_initialized (snd (getXML_all E urls s)) = priv_initialized s"
proof (induction urls arbitrary: s)
  case Nil
  then show ?case by simp
next
  case (Cons u urls)
  obtain r s1 where 1: "cache_getXML E u s = (r, s1)" by (cases "cache_getXML E u s")
  with Cons.IH [of s1] cache_getXML_fields [OF 1] show ?case
    by (cases "getXML_all E urls s1") simp
qed

lemma fetchAllReferences_initialized:
  "priv_initialized (snd (fetchAllReferences E s)) = priv_initialized s"
proof (cases "priv_apps s")
  case None
  then show ?thesis by (simp add: fetchAllReferences_def Let_def console_log_def)
next
  case (Some apps)
  let ?s0 = "console_log (''Fetching all URLs referenced by chunk '' @ string_of_nat (chunkNumber s)) s"
  let ?urls = "unique (concat (map (\<lambda>app. map referencedUrl (pointers app)) apps))"
  from Some getXML_all_initialized [of E ?urls ?s0] show ?thesis
    by (cases "getXML_all E ?urls ?s0") (simp add: fetchAllReferences_def Let_def console_log_def)
qed

lemma parseApps_initialized:
  "priv_initialized (snd (parseApps E s)) = priv_initialized s"
  by (auto simp: parseApps_def split: option.splits sum.splits)

lemma loadXML_initialized:
  "priv_initialized (snd (loadXML E s)) = priv_initialized s"
proof -
  obtain r s1 where 1: "cache_getXML E (spine_url (chunkNumber s)) s = (r, s1)"
    by (cases "cache_getXML E (spine_url (chunkNumber s)) s")
  with cache_getXML_fields [OF 1] show ?thesis
    by (cases r) (simp_all add: loadXML_def)
qed

lemma dereferencePointers_initialized:
  "priv_initialized (snd (dereferencePointers E s)) = priv_initialized s"
proof (cases "priv_apps s")
  case None
  then show ?thesis by (simp add: dereferencePointers_def)
next
  case (Some apps)
  obtain r apps' s' where 1: "deref_apps E apps s = (r, apps', s')"
    by (cases "deref_apps E apps s")
  with Some deref_apps_frame [OF 1] show ?thesis by (simp add: dereferencePointers_def)
qed

section \<open>A failed lookup in the dereference phase\<close>

text \<open>
  C7: let the first four phases of \<^verbatim>\<open>initialize\<close> complete, and let some pointer left
  in a pointer list be such that the lookup of its \<^verbatim>\<open>referencedTarget\<close> as an id in
  the document of its \<^verbatim>\<open>referencedUrl\<close> finds no node or more than one. Then
  \<^verbatim>\<open>initialize\<close> ends with an error, the chunk is not marked initialized, and the
  pointer lists still hold the same pointer elements: no pointer was dropped.
\<close>

theorem dereference_failure_aborts:
  assumes "\<not> priv_initialized s"
    and "andThen (loadXML E) (andThen (parseApps E)
           (andThen (fetchAllReferences E) (rewriteStringRanges E))) s = (None, s4)"
    and "priv_apps s4 = Some apps" and "a \<in> set apps" and "p \<in> set (pointers a)"
    and "cache s4 (referencedUrl p) = Some doc"
    and "evaluateXPath E s4 doc (''//*[@xml:id='' @ [CHR 0x22] @ referencedTarget p @ [CHR 0x22] @ '']'') = Some ns"
    and "length ns \<noteq> 1"
  shows "\<exists>err s'. initialize E s = (Some err, s') \<and> \<not> priv_initialized s'
           \<and> (\<exists>apps'. priv_apps s' = Some apps'
                 \<and> map (\<lambda>a. map ptrElement (pointers a)) apps' = map (\<lambda>a. map ptrElement (pointers a)) apps)"
proof -
  from assms(2) obtain s1 s2 s3 where 1: "loadXML E s = (None, s1)"
    and 2: "parseApps E s1 = (None, s2)" and 3: "fetchAllReferences E s2 = (None, s3)"
    and 4: "rewriteStringRanges E s3 = (None, s4)"
    by (blast dest!: andThen_None)
  from 1 loadXML_initialized [of E s] have "priv_initialized s1 = priv_initialized s" by simp
  moreover from 2 parseApps_initialized [of E s1] have "priv_initialized s2 = priv_initialized s1" by simp
  moreover from 3 fetchAllReferences_initialized [of E s2] have "priv_initialized s3 = priv_initialized s2" by simp
  moreover from 4 rewriteStringRanges_initialized [of E s3] have "priv_initialized s4 = priv_initialized s3" by simp
  ultimately have n4: "\<not> priv_initialized s4" using assms(1) by simp
  obtain r apps' t where d: "deref_apps E apps s4 = (r, apps', t)"
    by (cases "deref_apps E apps s4")
  from assms(7) have "evaluate E (attrs s4) doc
      (''//*[@xml:id='' @ [CHR 0x22] @ referencedTarget p @ [CHR 0x22] @ '']'') = Some ns"
    by (simp add: evaluateXPath_def)
  from deref_apps_fails [OF assms(4) assms(5) assms(6) this assms(8)] d
  obtain err where r: "r = Some err" by auto
  from assms(3) d r have dp: "dereferencePointers E s4 = (Some err, t\<lparr>priv_apps := Some apps'\<rparr>)"
    by (simp add: dereferencePointers_def)
  have "initialize E s = (Some err, t\<lparr>priv_apps := Some apps'\<rparr>)"
    using assms(1) 1 2 3 4 dp by (simp add: initialize_def andThen_def)
  moreover from deref_apps_frame [OF d] n4 have "\<not> priv_initialized (t\<lparr>priv_apps := Some apps'\<rparr>)"
    and "map (\<lambda>a. map ptrElement (pointers a)) apps' = map (\<lambda>a. map ptrElement (pointers a)) apps"
    by simp_all
  ultimately show ?thesis by simp
qed

theorem dereference_failure_aborts_witness:
  "\<exists>err s'. initialize sample_env (sample_state ''doc.xml#w1'' ''doc.xml#w1'' ''doc.xml#nope'') = (Some err, s')
       \<and> \<not> priv_initialized s'
       \<and> (\<exists>apps'. priv_apps s' = Some apps' \<and> map (\<lambda>a. map ptrElement (pointers a)) apps' = [[4, 6], [10]])"
proof -
  let ?s = "sample_state ''doc.xml#w1'' ''doc.xml#w1'' ''doc.xml#nope''"
  let ?run = "andThen (loadXML sample_env) (andThen (parseApps sample_env)
           (andThen (fetchAllReferences sample_env) (rewriteStringRanges sample_env))) ?s"
  let ?p = "\<lparr>ptrElement = 10, groupId = ''G2'',
             edition = Some \<lparr>code = ''1823'', name = ''1823'', chunks = [1, 2, 3, 4, 5, 6, 7, 8, 9, 10]\<rparr>,
             referencedUrl = ''doc.xml'', referencedTarget = ''nope'', dereferenced = None\<rparr>"
  let ?a = "\<lparr>id_app = ''A2'', n_app = None, element = 7, pointers = [?p]\<rparr>"
  let ?apps = "[\<lparr>id_app = ''A1'', n_app = None, element = 1,
       pointers =
         [\<lparr>ptrElement = 4, groupId = ''G1'',
             edition = Some \<lparr>code = ''1818'', name = ''1818'', chunks = [1, 2, 3, 4, 5, 6, 7, 8, 9, 10]\<rparr>,
             referencedUrl = ''doc.xml'', referencedTarget = ''w1'', dereferenced = None\<rparr>,
          \<lparr>ptrElement = 6, groupId = ''G1'',
             edition = Some \<lparr>code = ''MS'', name = ''MS'', chunks = [7, 8, 9, 10]\<rparr>,
             referencedUrl = ''doc.xml'', referencedTarget = ''w1'', dereferenced = None\<rparr>]\<rparr>, ?a]"
  have n: "\<not> priv_initialized ?s" by (simp add: sample_state_def)
  have "fst ?run = None" by code_simp
  then have run: "?run = (None, snd ?run)" by (simp add: prod_eq_iff)
  have apps: "priv_apps (snd ?run) = Some ?apps" by code_simp
  have a: "?a \<in> set ?apps" by simp
  have p: "?p \<in> set (pointers ?a)" by simp
  have c: "cache (snd ?run) (referencedUrl ?p) = Some sample_witness" by code_simp
  have e: "evaluateXPath sample_env (snd ?run) sample_witness
      (''//*[@xml:id='' @ [CHR 0x22] @ referencedTarget ?p @ [CHR 0x22] @ '']'') = Some []"
    by code_simp
  have l: "length ([] :: node list) \<noteq> 1" by simp
  from dereference_failure_aborts [OF n run apps a p c e l] show ?thesis by simp
qed

section \<open>The range-rewrite phase\<close>

lemma rewrite_ptrs_single:
  "fst (rewrite_ptrs E [p] s) =
     [case match_string_range (referencedTarget p) of
        None \<Rightarrow> (p, True)
      | Some (xp, st, len) \<Rightarrow>
          (case fst (rewriteStringRange E p
                  \<lparr>xpath = xp, start = parseInt E st, length_range = parseInt E len\<rparr> s) of
             Inl err \<Rightarrow> (p, False)
           | Inr p' \<Rightarrow> (p', True))]"
proof (cases "match_string_range (referencedTarget p)")
  case None
  then show ?thesis by simp
next
  case (Some m)
  obtain xp st len where m: "m = (xp, st, len)" by (cases m)
  let ?rng = "\<lparr>xpath = xp, start = parseInt E st, length_range = parseInt E len\<rparr>"
  obtain r s1 where 1: "rewriteStringRange E p ?rng s = (r, s1)"
    by (cases "rewriteStringRange E p ?rng s")
  with Some m show ?thesis by (cases r) simp_all
qed

lemma rewrite_ptrs_Cons:
  "rewrite_ptrs E (p # ps) s =
     (fst (rewrite_ptrs E [p] s) @ fst (rewrite_ptrs E ps (snd (rewrite_ptrs E [p] s))),
      snd (rewrite_ptrs E ps (snd (rewrite_ptrs E [p] s))))"
proof (cases "match_string_range (referencedTarget p)")
  case None
  then show ?thesis by (cases "rewrite_ptrs E ps s") simp
next
  case (Some m)
  obtain xp st len where m: "m = (xp, st, len)" by (cases m)
  let ?rng = "\<lparr>xpath = xp, start = parseInt E st, length_range = parseInt E len\<rparr>"
  obtain r s1 where 1: "rewriteStringRange E p ?rng s = (r, s1)"
    by (cases "rewriteStringRange E p ?rng s")
  with Some m show ?thesis by (cases r; cases "rewrite_ptrs E ps s1") simp_all
qed

lemma rewrite_ptrs_append:
  "rewrite_ptrs E (xs @ ys) s =
     (fst (rewrite_ptrs E xs s) @ fst (rewrite_ptrs E ys (snd (rewrite_ptrs E xs s))),
      snd (rewrite_ptrs E ys (snd (rewrite_ptrs E xs s))))"
proof (induction xs arbitrary: s)
  case Nil
  then show ?case by simp
next
  case (Cons x xs)
  have "rewrite_ptrs E ((x # xs) @ ys) s = rewrite_ptrs E (x # (xs @ ys)) s" by simp
  also have "\<dots> = (fst (rewrite_ptrs E [x] s) @ fst (rewrite_ptrs E (xs @ ys) (snd (rewrite_ptrs E [x] s))),
      snd (rewrite_ptrs E (xs @ ys) (snd (rewrite_ptrs E [x] s))))"
    by (rule rewrite_ptrs_Cons)
  finally show ?case
    by (simp only: Cons.IH rewrite_ptrs_Cons [of E x xs s] fst_conv snd_conv append_assoc)
qed

lemma length_rewrite_ptrs:
  "length (fst (rewrite_ptrs E ps s)) = length ps"
proof (induction ps arbitrary: s)
  case Nil
  then show ?case by simp
next
  case (Cons p ps)
  show ?case
    by (simp add: rewrite_ptrs_Cons [of E p ps s] Cons.IH rewrite_ptrs_single
        del: rewrite_ptrs.simps)
qed

lemma rewrite_ptrs_nth:
  assumes "j < length ps"
  shows "fst (rewrite_ptrs E ps s) ! j =
     (case match_string_range (referencedTarget (ps ! j)) of
        None \<Rightarrow> (ps ! j, True)
      | Some (xp, st, len) \<Rightarrow>
          (case fst (rewriteStringRange E (ps ! j)
                  \<lparr>xpath = xp, start = parseInt E st, length_range = parseInt E len\<rparr>
                  (snd (rewrite_ptrs E (take j ps) s))) of
             Inl err \<Rightarrow> (ps ! j, False)
           | Inr p' \<Rightarrow> (p', True)))"
proof -
  let ?sj = "snd (rewrite_ptrs E (take j ps) s)"
  from assms have split: "ps = take j ps @ (ps ! j # drop (Suc j) ps)"
    by (simp add: id_take_nth_drop)
  have "fst (rewrite_ptrs E ps s) =
      fst (rewrite_ptrs E (take j ps) s) @ fst (rewrite_ptrs E (ps ! j # drop (Suc j) ps) ?sj)"
    by (subst split) (simp only: rewrite_ptrs_append fst_conv)
  also have "fst (rewrite_ptrs E (ps ! j # drop (Suc j) ps) ?sj) =
      fst (rewrite_ptrs E [ps ! j] ?sj)
        @ fst (rewrite_ptrs E (drop (Suc j) ps) (snd (rewrite_ptrs E [ps ! j] ?sj)))"
    by (simp only: rewrite_ptrs_Cons [of E "ps ! j" "drop (Suc j) ps" ?sj] fst_conv)
  finally have "fst (rewrite_ptrs E ps s) ! j = hd (fst (rewrite_ptrs E [ps ! j] ?sj))"
    using assms by (simp add: nth_append length_rewrite_ptrs rewrite_ptrs_single del: rewrite_ptrs.simps)
  then show ?thesis by (simp add: rewrite_ptrs_single del: rewrite_ptrs.simps)
qed

lemma rewrite_apps_append:
  "rewrite_apps E (xs @ ys) s =
     (fst (rewrite_apps E xs s) @ fst (rewrite_apps E ys (snd (rewrite_apps E xs s))),
      snd (rewrite_apps E ys (snd (rewrite_apps E xs s))))"
proof (induction xs arbitrary: s)
  case Nil
  then show ?case by simp
next
  case (Cons x xs)
  obtain x' s1 where 1: "rewrite_app E x s = (x', s1)" by (cases "rewrite_app E x s")
  with Cons.IH [of s1] show ?case
    by (cases "rewrite_apps E xs s1"; cases "rewrite_apps E (xs @ ys) s1") simp
qed

lemma length_rewrite_apps:
  "length (fst (rewrite_apps E apps s)) = length apps"
proof (induction apps arbitrary: s)
  case Nil
  then show ?case by simp
next
  case (Cons a apps)
  obtain a' s1 where 1: "rewrite_app E a s = (a', s1)" by (cases "rewrite_app E a s")
  with Cons.IH [of s1] show ?case by (cases "rewrite_apps E apps s1") simp
qed

lemma rewrite_apps_nth:
  assumes "k < length apps"
  shows "fst (rewrite_apps E apps s) ! k =
           fst (rewrite_app E (apps ! k) (snd (rewrite_apps E (take k apps) s)))"
proof -
  let ?sk = "snd (rewrite_apps E (take k apps) s)"
  from assms have split: "apps = take k apps @ (apps ! k # drop (Suc k) apps)"
    by (simp add: id_take_nth_drop)
  have "fst (rewrite_apps E apps s) =
      fst (rewrite_apps E (take k apps) s) @ fst (rewrite_apps E (apps ! k # drop (Suc k) apps) ?sk)"
    by (subst split) (simp only: rewrite_apps_append fst_conv)
  moreover have "hd (fst (rewrite_apps E (apps ! k # drop (Suc k) apps) ?sk)) = fst (rewrite_app E (apps ! k) ?sk)"
    by (cases "rewrite_app E (apps ! k) ?sk";
        cases "rewrite_apps E (drop (Suc k) apps) (snd (rewrite_app E (apps ! k) ?sk))") simp
  moreover have "fst (rewrite_apps E (apps ! k # drop (Suc k) apps) ?sk) \<noteq> []"
    using length_rewrite_apps [of E "apps ! k # drop (Suc k) apps" ?sk] by auto
  ultimately show ?thesis
    using assms by (simp add: nth_append length_rewrite_apps hd_conv_nth)
qed

lemma rewriteStringRanges_run:
  "priv_apps t = Some apps \<Longrightarrow>
     rewriteStringRanges E t =
       (None, (snd (rewrite_apps E apps t))\<lparr>priv_apps := Some (fst (rewrite_apps E apps t))\<rparr>)"
  by (cases "rewrite_apps E apps t") (simp add: rewriteStringRanges_def)

lemma rewrite_ptrs_single_state:
  "snd (rewrite_ptrs E [p] s) =
     (case match_string_range (referencedTarget p) of
        None \<Rightarrow> s
      | Some (xp, st, len) \<Rightarrow>
          snd (rewriteStringRange E p
                 \<lparr>xpath = xp, start = parseInt E st, length_range = parseInt E len\<rparr> s))"
proof (cases "match_string_range (referencedTarget p)")
  case None
  then show ?thesis by simp
next
  case (Some m)
  obtain xp st len where m: "m = (xp, st, len)" by (cases m)
  let ?rng = "\<lparr>xpath = xp, start = parseInt E st, length_range = parseInt E len\<rparr>"
  obtain r s1 where 1: "rewriteStringRange E p ?rng s = (r, s1)"
    by (cases "rewriteStringRange E p ?rng s")
  with Some m show ?thesis by (cases r) simp_all
qed

lemma rewrite_ptrs_take_Suc:
  assumes "i < length ps"
  shows "snd (rewrite_ptrs E (take (Suc i) ps) s) =
           snd (rewrite_ptrs E [ps ! i] (snd (rewrite_ptrs E (take i ps) s)))"
proof -
  from assms have "take (Suc i) ps = take i ps @ [ps ! i]"
    by (rule take_Suc_conv_app_nth)
  then show ?thesis by (simp only: rewrite_ptrs_append snd_conv)
qed

lemma rewrite_ptrs_rest:
  "snd (rewrite_ptrs E ps s) = snd (rewrite_ptrs E (drop n ps) (snd (rewrite_ptrs E (take n ps) s)))"
proof -
  have "rewrite_ptrs E ps s = rewrite_ptrs E (take n ps @ drop n ps) s" by simp
  then show ?thesis by (simp only: rewrite_ptrs_append snd_conv)
qed

lemma rewrite_apps_rest:
  "snd (rewrite_apps E apps t) = snd (rewrite_apps E (drop n apps) (snd (rewrite_apps E (take n apps) t)))"
proof -
  have "rewrite_apps E apps t = rewrite_apps E (take n apps @ drop n apps) t" by simp
  then show ?thesis by (simp only: rewrite_apps_append snd_conv)
qed

lemma rewrite_apps_take_Suc:
  assumes "k < length apps"
  shows "snd (rewrite_apps E (take (Suc k) apps) t) =
           snd (rewrite_ptrs E (pointers (apps ! k)) (snd (rewrite_apps E (take k apps) t)))"
proof -
  let ?sk = "snd (rewrite_apps E (take k apps) t)"
  from assms have "take (Suc k) apps = take k apps @ [apps ! k]"
    by (rule take_Suc_conv_app_nth)
  then have "snd (rewrite_apps E (take (Suc k) apps) t) = snd (rewrite_apps E [apps ! k] ?sk)"
    by (simp only: rewrite_apps_append snd_conv)
  also have "\<dots> = snd (rewrite_app E (apps ! k) ?sk)"
    by (cases "rewrite_app E (apps ! k) ?sk") simp
  also have "\<dots> = snd (rewrite_ptrs E (pointers (apps ! k)) ?sk)"
    by (cases "rewrite_ptrs E (pointers (apps ! k)) ?sk") (simp add: rewrite_app_def)
  finally show ?thesis .
qed

lemma rewrite_ptrs_nth_single:
  assumes "j < length ps"
  shows "fst (rewrite_ptrs E [ps ! j] (snd (rewrite_ptrs E (take j ps) s))) = [fst (rewrite_ptrs E ps s) ! j]"
proof -
  have "fst (rewrite_ptrs E [ps ! j] (snd (rewrite_ptrs E (take j ps) s)))
      = [case match_string_range (referencedTarget (ps ! j)) of
        None \<Rightarrow> (ps ! j, True)
      | Some (xp, st, len) \<Rightarrow>
          (case fst (rewriteStringRange E (ps ! j)
                  \<lparr>xpath = xp, start = parseInt E st, length_range = parseInt E len\<rparr>
                  (snd (rewrite_ptrs E (take j ps) s))) of
             Inl err \<Rightarrow> (ps ! j, False)
           | Inr p' \<Rightarrow> (p', True))]"
    by (rule rewrite_ptrs_single)
  also have "\<dots> = [fst (rewrite_ptrs E ps s) ! j]"
    by (simp only: rewrite_ptrs_nth [OF assms, of E s])
  finally show ?thesis .
qed

text \<open>One step of the loop, by what the pointer's target, the cache and the XPath engine give.\<close>

lemma rewrite_step_plain:
  "match_string_range (referencedTarget p) = None \<Longrightarrow> rewrite_ptrs E [p] s = ([(p, True)], s)"
  by simp

lemma rewrite_step_no_document:
  assumes "match_string_range (referencedTarget p) = Some (xp, st, len)"
    and "cache_getXML E (referencedUrl p) s = (None, s1)"
  shows "rewrite_ptrs E [p] s = ([(p, False)], s1)"
proof -
  from rewriteStringRange_no_document [OF assms(2)]
  have "rewriteStringRange E p \<lparr>xpath = xp, start = parseInt E st, length_range = parseInt E len\<rparr> s
      = (Inl FetchError, s1)" .
  with assms(1) show ?thesis by simp
qed

lemma rewrite_step_xpath_error:
  assumes "match_string_range (referencedTarget p) = Some (xp, st, len)"
    and "cache_getXML E (referencedUrl p) s = (Some doc, s1)"
    and "evaluateXPath E s1 doc (remove_tei xp) = None"
  shows "rewrite_ptrs E [p] s = ([(p, False)], s1)"
proof -
  from assms(3) have "evaluateXPath E s1 doc
      (remove_tei (xpath \<lparr>xpath = xp, start = parseInt E st, length_range = parseInt E len\<rparr>)) = None"
    by simp
  from rewriteStringRange_xpath_error [OF assms(2) this] assms(1) show ?thesis by simp
qed

lemma rewrite_step_not_element:
  assumes "match_string_range (referencedTarget p) = Some (xp, st, len)"
    and "cache_getXML E (referencedUrl p) s = (Some doc, s1)"
    and "evaluateXPath E s1 doc (remove_tei xp) = Some [OtherNode]"
  shows "rewrite_ptrs E [p] s = ([(p, False)], s1)"
proof -
  from assms(3) have "evaluateXPath E s1 doc
      (remove_tei (xpath \<lparr>xpath = xp, start = parseInt E st, length_range = parseInt E len\<rparr>))
      = Some [OtherNode]"
    by simp
  from rewriteStringRange_not_element [OF assms(2) this] assms(1) show ?thesis by simp
qed

lemma rewrite_step_bad_count:
  assumes "match_string_range (referencedTarget p) = Some (xp, st, len)"
    and "cache_getXML E (referencedUrl p) s = (Some doc, s1)"
    and "evaluateXPath E s1 doc (remove_tei xp) = Some ns" and "length ns \<noteq> 1"
  shows "rewrite_ptrs E [p] s =
     ([(p, False)],
      console_log (''string-range for xpath '' @ remove_tei xp @
         (if ns = [] then '' failed to return a node'' else '' returned more than one node'')) s1)"
proof (cases ns)
  case Nil
  with assms(3) have "evaluateXPath E s1 doc
      (remove_tei (xpath \<lparr>xpath = xp, start = parseInt E st, length_range = parseInt E len\<rparr>)) = Some []"
    by simp
  from rewriteStringRange_no_nodes [OF assms(2) this]
  have "rewriteStringRange E p \<lparr>xpath = xp, start = parseInt E st, length_range = parseInt E len\<rparr> s =
      (Inl StringRangeNoNodes,
       console_log (''string-range for xpath '' @ remove_tei xp @ '' failed to return a node'') s1)"
    by simp
  with assms(1) Nil show ?thesis by simp
next
  case (Cons nd rest)
  with assms(4) obtain nd' rest' where "rest = nd' # rest'" by (cases rest) auto
  with Cons assms(3) have "evaluateXPath E s1 doc
      (remove_tei (xpath \<lparr>xpath = xp, start = parseInt E st, length_range = parseInt E len\<rparr>))
      = Some (nd # nd' # rest')"
    by simp
  from rewriteStringRange_many_nodes [OF assms(2) this]
  have "rewriteStringRange E p \<lparr>xpath = xp, start = parseInt E st, length_range = parseInt E len\<rparr> s =
      (Inl StringRangeManyNodes,
       console_log (''string-range for xpath '' @ remove_tei xp @ '' returned more than one node'') s1)"
    by simp
  with assms(1) Cons show ?thesis by simp
qed

lemma rewrite_step_element:
  assumes "match_string_range (referencedTarget p) = Some (xp, st, len)"
    and "cache_getXML E (referencedUrl p) s = (Some doc, s1)"
    and "evaluateXPath E s1 doc (remove_tei xp) = Some [ElementNode el]"
  shows "fst (rewrite_ptrs E [p] s) =
     [(p\<lparr>referencedTarget :=
           (case getNamedItem (attrs s1) el ''xml:id'' of
              Some v \<Rightarrow> v
            | None \<Rightarrow> ''mock-id-'' @ string_of_nat (mockElementCount s1))\<rparr>, True)]"
proof -
  let ?rng = "\<lparr>xpath = xp, start = parseInt E st, length_range = parseInt E len\<rparr>"
  from assms(3) have ev: "evaluateXPath E s1 doc (remove_tei (xpath ?rng)) = Some [ElementNode el]"
    by simp
  show ?thesis
  proof (cases "getNamedItem (attrs s1) el ''xml:id''")
    case None
    from rewriteStringRange_mock_id [OF assms(2) ev None] assms(1) None show ?thesis by simp
  next
    case (Some v)
    from rewriteStringRange_existing_id [OF assms(2) ev Some] assms(1) Some show ?thesis by simp
  qed
qed

lemma list_of_two: "length xs = 2 \<Longrightarrow> xs = [xs ! 0, xs ! 1]"
proof -
  assume "length xs = 2"
  then obtain a b where "xs = [a, b]"
    by (metis One_nat_def Suc_1 length_0_conv length_Suc_conv)
  then show ?thesis by simp
qed

section \<open>What a dropped range pointer leaves behind\<close>

text \<open>
  C10: in the range-rewrite phase, take the \<open>k\<close>-th apparatus entry and its \<open>i\<close>-th
  pointer, a range pointer whose patched XPath, evaluated when its turn comes, gives no
  node or more than one. The loop flags the pointer invalid, with its record as it was,
  and the new pointer list of the entry is the list of the pointers flagged valid: the
  drop shows there. The state after the step of this pointer is the state the cache
  answered in, with one more console line: every attribute of every element (the target
  of the \<^verbatim>\<open>ptr\<close> element and the whole target document among them) and the id
  counter are as before the step. The loop goes on from that state, the entry's step
  ends in the state its loop ends in (the filter writes nothing), the phase goes on from
  there, and it ends in the state the last entry leaves, with the new apparatus list
  and nothing else changed.
\<close>

theorem dropped_pointer_frame:
  assumes "priv_apps t = Some apps" and "k < length apps" and "i < length (pointers (apps ! k))"
    and "match_string_range (referencedTarget (pointers (apps ! k) ! i)) = Some (xp, st, len)"
    and "cache_getXML E (referencedUrl (pointers (apps ! k) ! i))
           (snd (rewrite_ptrs E (take i (pointers (apps ! k))) (snd (rewrite_apps E (take k apps) t))))
         = (Some doc, s1)"
    and "evaluateXPath E s1 doc (remove_tei xp) = Some ns" and "length ns \<noteq> 1"
  shows "(let sk = snd (rewrite_apps E (take k apps) t);
              ps = pointers (apps ! k);
              before = snd (rewrite_ptrs E (take i ps) sk);
              after = snd (rewrite_ptrs E (take (Suc i) ps) sk)
          in fst (rewrite_ptrs E ps sk) ! i = (ps ! i, False)
             \<and> pointers (fst (rewrite_apps E apps t) ! k) = map fst (filter snd (fst (rewrite_ptrs E ps sk)))
             \<and> after = console_log (''string-range for xpath '' @ remove_tei xp @
                   (if ns = [] then '' failed to return a node'' else '' returned more than one node'')) s1
             \<and> attrs after = attrs before
             \<and> mockElementCount after = mockElementCount before
             \<and> snd (rewrite_ptrs E ps sk) = snd (rewrite_ptrs E (drop (Suc i) ps) after)
             \<and> snd (rewrite_apps E (take (Suc k) apps) t) = snd (rewrite_ptrs E ps sk)
             \<and> snd (rewrite_apps E apps t) =
                 snd (rewrite_apps E (drop (Suc k) apps) (snd (rewrite_apps E (take (Suc k) apps) t))))
       \<and> rewriteStringRanges E t =
           (None, (snd (rewrite_apps E apps t))\<lparr>priv_apps := Some (fst (rewrite_apps E apps t))\<rparr>)"
proof -
  let ?sk = "snd (rewrite_apps E (take k apps) t)"
  let ?ps = "pointers (apps ! k)"
  let ?before = "snd (rewrite_ptrs E (take i ?ps) ?sk)"
  let ?after = "snd (rewrite_ptrs E (take (Suc i) ?ps) ?sk)"
  let ?msg = "''string-range for xpath '' @ remove_tei xp @
                   (if ns = [] then '' failed to return a node'' else '' returned more than one node'')"
  note step = rewrite_step_bad_count [OF assms(4) assms(5) assms(6) assms(7)]
  have "[fst (rewrite_ptrs E ?ps ?sk) ! i] = fst (rewrite_ptrs E [?ps ! i] ?before)"
    by (rule rewrite_ptrs_nth_single [OF assms(3), symmetric])
  also have "\<dots> = [(?ps ! i, False)]" by (simp only: step fst_conv)
  finally have dropped: "fst (rewrite_ptrs E ?ps ?sk) ! i = (?ps ! i, False)" by simp
  have "?after = snd (rewrite_ptrs E [?ps ! i] ?before)"
    by (rule rewrite_ptrs_take_Suc [OF assms(3)])
  also have "\<dots> = console_log ?msg s1" by (simp only: step snd_conv)
  finally have after: "?after = console_log ?msg s1" .
  from cache_getXML_fields [OF assms(5)] have "attrs s1 = attrs ?before"
    and "mockElementCount s1 = mockElementCount ?before" by simp_all
  then have frame: "attrs ?after = attrs ?before" "mockElementCount ?after = mockElementCount ?before"
    unfolding after by (simp_all add: console_log_def)
  have kept: "pointers (fst (rewrite_apps E apps t) ! k) = map fst (filter snd (fst (rewrite_ptrs E ?ps ?sk)))"
    by (cases "rewrite_ptrs E ?ps ?sk") (simp add: rewrite_apps_nth [OF assms(2)] rewrite_app_def)
  have rest: "snd (rewrite_ptrs E ?ps ?sk) = snd (rewrite_ptrs E (drop (Suc i) ?ps) ?after)"
    by (rule rewrite_ptrs_rest)
  have app: "snd (rewrite_apps E (take (Suc k) apps) t) = snd (rewrite_ptrs E ?ps ?sk)"
    by (rule rewrite_apps_take_Suc [OF assms(2)])
  have apps: "snd (rewrite_apps E apps t) =
       snd (rewrite_apps E (drop (Suc k) apps) (snd (rewrite_apps E (take (Suc k) apps) t)))"
    by (rule rewrite_apps_rest)
  note phase = rewriteStringRanges_run [OF assms(1), of E]
  show ?thesis
    unfolding Let_def
    using dropped kept after frame rest app apps phase by (intro conjI)
qed

theorem dropped_pointer_frame_witness:
  "fst (rewrite_ptrs sample_env
         [\<lparr>ptrElement = 4, groupId = ''G1'', edition = None, referencedUrl = ''doc.xml'',
             referencedTarget = ''string-range(//tei:body,0,10)'', dereferenced = None\<rparr>,
          \<lparr>ptrElement = 6, groupId = ''G1'', edition = None, referencedUrl = ''doc.xml'',
             referencedTarget = ''string-range(//tei:p,0,5)'', dereferenced = None\<rparr>]
         ((sample_state ''doc.xml#string-range(//tei:body,0,10)'' ''doc.xml#string-range(//tei:p,0,5)'' ''doc.xml#w1'')
            \<lparr>cache := [''doc.xml'' \<mapsto> sample_witness],
             priv_apps := Some
               [\<lparr>id_app = ''A1'', n_app = None, element = 1,
                  pointers =
                    [\<lparr>ptrElement = 4, groupId = ''G1'', edition = None, referencedUrl = ''doc.xml'',
                        referencedTarget = ''string-range(//tei:body,0,10)'', dereferenced = None\<rparr>,
                     \<lparr>ptrElement = 6, groupId = ''G1'', edition = None, referencedUrl = ''doc.xml'',
                        referencedTarget = ''string-range(//tei:p,0,5)'', dereferenced = None\<rparr>]\<rparr>]\<rparr>)) ! 1
     = (\<lparr>ptrElement = 6, groupId = ''G1'', edition = None, referencedUrl = ''doc.xml'',
             referencedTarget = ''string-range(//tei:p,0,5)'', dereferenced = None\<rparr>, False)
   \<and> attrs (snd (rewrite_ptrs sample_env
         [\<lparr>ptrElement = 4, groupId = ''G1'', edition = None, referencedUrl = ''doc.xml'',
             referencedTarget = ''string-range(//tei:body,0,10)'', dereferenced = None\<rparr>,
          \<lparr>ptrElement = 6, groupId = ''G1'', edition = None, referencedUrl = ''doc.xml'',
             referencedTarget = ''string-range(//tei:p,0,5)'', dereferenced = None\<rparr>]
         ((sample_state ''doc.xml#string-range(//tei:body,0,10)'' ''doc.xml#string-range(//tei:p,0,5)'' ''doc.xml#w1'')
            \<lparr>cache := [''doc.xml'' \<mapsto> sample_witness],
             priv_apps := Some
               [\<lparr>id_app = ''A1'', n_app = None, element = 1,
                  pointers =
                    [\<lparr>ptrElement = 4, groupId = ''G1'', edition = None, referencedUrl = ''doc.xml'',
                        referencedTarget = ''string-range(//tei:body,0,10)'', dereferenced = None\<rparr>,
                     \<lparr>ptrElement = 6, groupId = ''G1'', edition = None, referencedUrl = ''doc.xml'',
                        referencedTarget = ''string-range(//tei:p,0,5)'', dereferenced = None\<rparr>]\<rparr>]\<rparr>))) 6 ''target''
     = Some ''doc.xml#string-range(//tei:p,0,5)''
   \<and> mockElementCount (snd (rewrite_ptrs sample_env
         [\<lparr>ptrElement = 4, groupId = ''G1'', edition = None, referencedUrl = ''doc.xml'',
             referencedTarget = ''string-range(//tei:body,0,10)'', dereferenced = None\<rparr>,
          \<lparr>ptrElement = 6, groupId = ''G1'', edition = None, referencedUrl = ''doc.xml'',
             referencedTarget = ''string-range(//tei:p,0,5)'', dereferenced = None\<rparr>]
         ((sample_state ''doc.xml#string-range(//tei:body,0,10)'' ''doc.xml#string-range(//tei:p,0,5)'' ''doc.xml#w1'')
            \<lparr>cache := [''doc.xml'' \<mapsto> sample_witness],
             priv_apps := Some
               [\<lparr>id_app = ''A1'', n_app = None, element = 1,
                  pointers =
                    [\<lparr>ptrElement = 4, groupId = ''G1'', edition = None, referencedUrl = ''doc.xml'',
                        referencedTarget = ''string-range(//tei:body,0,10)'', dereferenced = None\<rparr>,
                     \<lparr>ptrElement = 6, groupId = ''G1'', edition = None, referencedUrl = ''doc.xml'',
                        referencedTarget = ''string-range(//tei:p,0,5)'', dereferenced = None\<rparr>]\<rparr>]\<rparr>))) = 1"
proof -
  let ?p0 = "\<lparr>ptrElement = 4, groupId = ''G1'', edition = None, referencedUrl = ''doc.xml'',
                referencedTarget = ''string-range(//tei:body,0,10)'', dereferenced = None\<rparr>"
  let ?p1 = "\<lparr>ptrElement = 6, groupId = ''G1'', edition = None, referencedUrl = ''doc.xml'',
                referencedTarget = ''string-range(//tei:p,0,5)'', dereferenced = None\<rparr>"
  let ?apps = "[\<lparr>id_app = ''A1'', n_app = None, element = 1, pointers = [?p0, ?p1]\<rparr>]"
  let ?t = "(sample_state ''doc.xml#string-range(//tei:body,0,10)'' ''doc.xml#string-range(//tei:p,0,5)'' ''doc.xml#w1'')
            \<lparr>cache := [''doc.xml'' \<mapsto> sample_witness], priv_apps := Some ?apps\<rparr>"
  let ?before = "snd (rewrite_ptrs sample_env (take 1 (pointers (?apps ! 0))) (snd (rewrite_apps sample_env (take 0 ?apps) ?t)))"
  let ?after = "snd (rewrite_ptrs sample_env (take (Suc 1) (pointers (?apps ! 0))) (snd (rewrite_apps sample_env (take 0 ?apps) ?t)))"
  have 1: "priv_apps ?t = Some ?apps" by simp
  have 2: "(0::nat) < length ?apps" by simp
  have 3: "(1::nat) < length (pointers (?apps ! 0))" by simp
  have 4: "match_string_range (referencedTarget (pointers (?apps ! 0) ! 1)) = Some (''//tei:p'', ''0'', ''5'')"
    by code_simp
  have "cache ?before (referencedUrl (pointers (?apps ! 0) ! 1)) = Some sample_witness"
    by code_simp
  then have 5: "cache_getXML sample_env (referencedUrl (pointers (?apps ! 0) ! 1)) ?before = (Some sample_witness, ?before)"
    by (rule cache_getXML_hit)
  have 6: "evaluateXPath sample_env ?before sample_witness (remove_tei ''//tei:p'') = Some [ElementNode 21, ElementNode 22]"
    by code_simp
  have 7: "length [ElementNode 21, ElementNode 22] \<noteq> 1" by simp
  note th = dropped_pointer_frame [OF 1 2 3 4 5 6 7, unfolded Let_def]
  from th have a: "fst (rewrite_ptrs sample_env (pointers (?apps ! 0)) (snd (rewrite_apps sample_env (take 0 ?apps) ?t))) ! 1
      = (pointers (?apps ! 0) ! 1, False)"
    and b: "attrs ?after = attrs ?before" and c: "mockElementCount ?after = mockElementCount ?before"
    by blast+
  have tk: "take (Suc 1) (pointers (?apps ! 0)) = [?p0, ?p1]" by simp
  have sk: "snd (rewrite_apps sample_env (take 0 ?apps) ?t) = ?t" by simp
  have b0: "attrs ?before 6 ''target'' = Some ''doc.xml#string-range(//tei:p,0,5)''" by code_simp
  have c0: "mockElementCount ?before = 1" by code_simp
  from a have a': "fst (rewrite_ptrs sample_env [?p0, ?p1] ?t) ! 1 = (?p1, False)"
    by (simp del: rewrite_ptrs.simps)
  from b b0 have b': "attrs (snd (rewrite_ptrs sample_env [?p0, ?p1] ?t)) 6 ''target'' = Some ''doc.xml#string-range(//tei:p,0,5)''"
    unfolding tk sk by simp
  from c c0 have c': "mockElementCount (snd (rewrite_ptrs sample_env [?p0, ?p1] ?t)) = 1"
    unfolding tk sk by simp
  from a' b' c' show ?thesis by blast
qed

section \<open>Which pointers the range-rewrite phase keeps\<close>

text \<open>
  C6, as the code has it: the range-rewrite phase on a chunk with an apparatus list
  never throws, and every pointer is kept or dropped by its own resolution alone. For
  the \<open>k\<close>-th apparatus entry, the new pointer list is the list of the pointers
  flagged valid by the loop, which flags every pointer of the entry, in order. A
  pointer whose target is no range expression is flagged valid and is untouched. A range
  pointer is flagged valid, with its target rewritten to the id, when its document is
  there and its patched XPath, evaluated when its turn comes, gives exactly one node
  that is an element. It is flagged invalid, so dropped, when the XPath gives no node or
  more than one, and also when its document cannot be fetched, when the engine throws,
  or when the one node is not an element. So a failing pointer removes no other pointer,
  and several pointers of one entry may fail and be dropped, each for itself.
\<close>

theorem range_rewrite_outcomes:
  assumes "priv_apps t = Some apps" and "k < length apps"
  shows "fst (rewriteStringRanges E t) = None
       \<and> priv_apps (snd (rewriteStringRanges E t)) = Some (fst (rewrite_apps E apps t))
       \<and> length (fst (rewrite_apps E apps t)) = length apps
       \<and> (let sk = snd (rewrite_apps E (take k apps) t);
              ps = pointers (apps ! k);
              rs = fst (rewrite_ptrs E ps sk)
          in pointers (fst (rewrite_apps E apps t) ! k) = map fst (filter snd rs)
             \<and> length rs = length ps
             \<and> (\<forall>j < length ps.
                   (match_string_range (referencedTarget (ps ! j)) = None \<longrightarrow> rs ! j = (ps ! j, True))
                 \<and> (\<forall>xp st len s1.
                       match_string_range (referencedTarget (ps ! j)) = Some (xp, st, len)
                       \<and> cache_getXML E (referencedUrl (ps ! j)) (snd (rewrite_ptrs E (take j ps) sk)) = (None, s1)
                       \<longrightarrow> rs ! j = (ps ! j, False))
                 \<and> (\<forall>xp st len doc s1.
                       match_string_range (referencedTarget (ps ! j)) = Some (xp, st, len)
                       \<and> cache_getXML E (referencedUrl (ps ! j)) (snd (rewrite_ptrs E (take j ps) sk)) = (Some doc, s1)
                       \<longrightarrow>
                         (\<forall>el. evaluateXPath E s1 doc (remove_tei xp) = Some [ElementNode el] \<longrightarrow>
                            rs ! j =
                              ((ps ! j)\<lparr>referencedTarget :=
                                  (case getNamedItem (attrs s1) el ''xml:id'' of
                                     Some v \<Rightarrow> v
                                   | None \<Rightarrow> ''mock-id-'' @ string_of_nat (mockElementCount s1))\<rparr>,
                               True))
                       \<and> (\<forall>ns. evaluateXPath E s1 doc (remove_tei xp) = Some ns \<and> length ns \<noteq> 1 \<longrightarrow>
                            rs ! j = (ps ! j, False))
                       \<and> (evaluateXPath E s1 doc (remove_tei xp) = Some [OtherNode] \<longrightarrow>
                            rs ! j = (ps ! j, False))
                       \<and> (evaluateXPath E s1 doc (remove_tei xp) = None \<longrightarrow>
                            rs ! j = (ps ! j, False)))))"
proof -
  let ?sk = "snd (rewrite_apps E (take k apps) t)"
  let ?ps = "pointers (apps ! k)"
  let ?rs = "fst (rewrite_ptrs E ?ps ?sk)"
  have one: "[?rs ! j] = fst (rewrite_ptrs E [?ps ! j] (snd (rewrite_ptrs E (take j ?ps) ?sk)))"
    if "j < length ?ps" for j
    using that by (rule rewrite_ptrs_nth_single [symmetric])
  have plain: "?rs ! j = (?ps ! j, True)"
    if "j < length ?ps" and "match_string_range (referencedTarget (?ps ! j)) = None" for j
    using one [OF that(1)] by (simp only: rewrite_step_plain [OF that(2)] fst_conv list.inject)
  have nodoc: "?rs ! j = (?ps ! j, False)"
    if "j < length ?ps" and "match_string_range (referencedTarget (?ps ! j)) = Some (xp, st, len)"
      and "cache_getXML E (referencedUrl (?ps ! j)) (snd (rewrite_ptrs E (take j ?ps) ?sk)) = (None, s1)"
    for j xp st len s1
    using one [OF that(1)] by (simp only: rewrite_step_no_document [OF that(2) that(3)] fst_conv list.inject)
  have elem: "?rs ! j = ((?ps ! j)\<lparr>referencedTarget :=
                                  (case getNamedItem (attrs s1) el ''xml:id'' of
                                     Some v \<Rightarrow> v
                                   | None \<Rightarrow> ''mock-id-'' @ string_of_nat (mockElementCount s1))\<rparr>,
                               True)"
    if "j < length ?ps" and "match_string_range (referencedTarget (?ps ! j)) = Some (xp, st, len)"
      and "cache_getXML E (referencedUrl (?ps ! j)) (snd (rewrite_ptrs E (take j ?ps) ?sk)) = (Some doc, s1)"
      and "evaluateXPath E s1 doc (remove_tei xp) = Some [ElementNode el]"
    for j xp st len doc s1 el
    using one [OF that(1)] by (simp only: rewrite_step_element [OF that(2) that(3) that(4)] list.inject)
  have count: "?rs ! j = (?ps ! j, False)"
    if "j < length ?ps" and "match_string_range (referencedTarget (?ps ! j)) = Some (xp, st, len)"
      and "cache_getXML E (referencedUrl (?ps ! j)) (snd (rewrite_ptrs E (take j ?ps) ?sk)) = (Some doc, s1)"
      and "evaluateXPath E s1 doc (remove_tei xp) = Some ns" and "length ns \<noteq> 1"
    for j xp st len doc s1 ns
    using one [OF that(1)]
    by (simp only: rewrite_step_bad_count [OF that(2) that(3) that(4) that(5)] fst_conv list.inject)
  have other: "?rs ! j = (?ps ! j, False)"
    if "j < length ?ps" and "match_string_range (referencedTarget (?ps ! j)) = Some (xp, st, len)"
      and "cache_getXML E (referencedUrl (?ps ! j)) (snd (rewrite_ptrs E (take j ?ps) ?sk)) = (Some doc, s1)"
      and "evaluateXPath E s1 doc (remove_tei xp) = Some [OtherNode]"
    for j xp st len doc s1
    using one [OF that(1)]
    by (simp only: rewrite_step_not_element [OF that(2) that(3) that(4)] fst_conv list.inject)
  have thrown: "?rs ! j = (?ps ! j, False)"
    if "j < length ?ps" and "match_string_range (referencedTarget (?ps ! j)) = Some (xp, st, len)"
      and "cache_getXML E (referencedUrl (?ps ! j)) (snd (rewrite_ptrs E (take j ?ps) ?sk)) = (Some doc, s1)"
      and "evaluateXPath E s1 doc (remove_tei xp) = None"
    for j xp st len doc s1
    using one [OF that(1)]
    by (simp only: rewrite_step_xpath_error [OF that(2) that(3) that(4)] fst_conv list.inject)
  have kept: "pointers (fst (rewrite_apps E apps t) ! k) = map fst (filter snd ?rs)"
    by (cases "rewrite_ptrs E ?ps ?sk") (simp add: rewrite_apps_nth [OF assms(2)] rewrite_app_def)
  from rewriteStringRanges_run [OF assms(1), of E]
  have phase: "fst (rewriteStringRanges E t) = None"
    "priv_apps (snd (rewriteStringRanges E t)) = Some (fst (rewrite_apps E apps t))"
    by simp_all
  have each: "\<forall>j < length ?ps.
                   (match_string_range (referencedTarget (?ps ! j)) = None \<longrightarrow> ?rs ! j = (?ps ! j, True))
                 \<and> (\<forall>xp st len s1.
                       match_string_range (referencedTarget (?ps ! j)) = Some (xp, st, len)
                       \<and> cache_getXML E (referencedUrl (?ps ! j)) (snd (rewrite_ptrs E (take j ?ps) ?sk)) = (None, s1)
                       \<longrightarrow> ?rs ! j = (?ps ! j, False))
                 \<and> (\<forall>xp st len doc s1.
                       match_string_range (referencedTarget (?ps ! j)) = Some (xp, st, len)
                       \<and> cache_getXML E (referencedUrl (?ps ! j)) (snd (rewrite_ptrs E (take j ?ps) ?sk)) = (Some doc, s1)
                       \<longrightarrow>
                         (\<forall>el. evaluateXPath E s1 doc (remove_tei xp) = Some [ElementNode el] \<longrightarrow>
                            ?rs ! j =
                              ((?ps ! j)\<lparr>referencedTarget :=
                                  (case getNamedItem (attrs s1) el ''xml:id'' of
                                     Some v \<Rightarrow> v
                                   | None \<Rightarrow> ''mock-id-'' @ string_of_nat (mockElementCount s1))\<rparr>,
                               True))
                       \<and> (\<forall>ns. evaluateXPath E s1 doc (remove_tei xp) = Some ns \<and> length ns \<noteq> 1 \<longrightarrow>
                            ?rs ! j = (?ps ! j, False))
                       \<and> (evaluateXPath E s1 doc (remove_tei xp) = Some [OtherNode] \<longrightarrow>
                            ?rs ! j = (?ps ! j, False))
                       \<and> (evaluateXPath E s1 doc (remove_tei xp) = None \<longrightarrow>
                            ?rs ! j = (?ps ! j, False)))"
    by (intro allI impI conjI; (elim conjE)?; (rule plain nodoc elem count other thrown; assumption))
  show ?thesis
    unfolding Let_def
    using phase kept each length_rewrite_apps [of E apps t] length_rewrite_ptrs [of E ?ps ?sk]
    by (intro conjI)
qed

theorem range_rewrite_outcomes_witness:
  "fst (rewriteStringRanges sample_env
         ((sample_state ''doc.xml#string-range(//tei:body,0,10)'' ''doc.xml#string-range(//tei:p,0,5)'' ''doc.xml#w1'')
            \<lparr>cache := [''doc.xml'' \<mapsto> sample_witness],
             priv_apps := Some
               [\<lparr>id_app = ''A1'', n_app = None, element = 1,
                  pointers =
                    [\<lparr>ptrElement = 4, groupId = ''G1'', edition = None, referencedUrl = ''doc.xml'',
                        referencedTarget = ''string-range(//tei:body,0,10)'', dereferenced = None\<rparr>,
                     \<lparr>ptrElement = 6, groupId = ''G1'', edition = None, referencedUrl = ''doc.xml'',
                        referencedTarget = ''string-range(//tei:p,0,5)'', dereferenced = None\<rparr>]\<rparr>]\<rparr>)) = None
   \<and> map_option (map pointers)
        (priv_apps (snd (rewriteStringRanges sample_env
         ((sample_state ''doc.xml#string-range(//tei:body,0,10)'' ''doc.xml#string-range(//tei:p,0,5)'' ''doc.xml#w1'')
            \<lparr>cache := [''doc.xml'' \<mapsto> sample_witness],
             priv_apps := Some
               [\<lparr>id_app = ''A1'', n_app = None, element = 1,
                  pointers =
                    [\<lparr>ptrElement = 4, groupId = ''G1'', edition = None, referencedUrl = ''doc.xml'',
                        referencedTarget = ''string-range(//tei:body,0,10)'', dereferenced = None\<rparr>,
                     \<lparr>ptrElement = 6, groupId = ''G1'', edition = None, referencedUrl = ''doc.xml'',
                        referencedTarget = ''string-range(//tei:p,0,5)'', dereferenced = None\<rparr>]\<rparr>]\<rparr>))))
     = Some [[\<lparr>ptrElement = 4, groupId = ''G1'', edition = None, referencedUrl = ''doc.xml'',
                 referencedTarget = ''mock-id-0'', dereferenced = None\<rparr>]]"
proof -
  let ?p0 = "\<lparr>ptrElement = 4, groupId = ''G1'', edition = None, referencedUrl = ''doc.xml'',
                referencedTarget = ''string-range(//tei:body,0,10)'', dereferenced = None\<rparr>"
  let ?p1 = "\<lparr>ptrElement = 6, groupId = ''G1'', edition = None, referencedUrl = ''doc.xml'',
                referencedTarget = ''string-range(//tei:p,0,5)'', dereferenced = None\<rparr>"
  let ?apps = "[\<lparr>id_app = ''A1'', n_app = None, element = 1, pointers = [?p0, ?p1]\<rparr>]"
  let ?t = "(sample_state ''doc.xml#string-range(//tei:body,0,10)'' ''doc.xml#string-range(//tei:p,0,5)'' ''doc.xml#w1'')
            \<lparr>cache := [''doc.xml'' \<mapsto> sample_witness], priv_apps := Some ?apps\<rparr>"
  let ?sk = "snd (rewrite_apps sample_env (take 0 ?apps) ?t)"
  let ?ps = "pointers (?apps ! 0)"
  let ?rs = "fst (rewrite_ptrs sample_env ?ps ?sk)"
  let ?s0 = "snd (rewrite_ptrs sample_env (take 0 ?ps) ?sk)"
  let ?s1 = "snd (rewrite_ptrs sample_env (take 1 ?ps) ?sk)"
  have 1: "priv_apps ?t = Some ?apps" by simp
  have 2: "(0::nat) < length ?apps" by simp
  note th = range_rewrite_outcomes [OF 1 2, of sample_env, unfolded Let_def]
  from th have none: "fst (rewriteStringRanges sample_env ?t) = None"
    and apps': "priv_apps (snd (rewriteStringRanges sample_env ?t)) = Some (fst (rewrite_apps sample_env ?apps ?t))"
    and n: "length (fst (rewrite_apps sample_env ?apps ?t)) = length ?apps"
    and kept: "pointers (fst (rewrite_apps sample_env ?apps ?t) ! 0) = map fst (filter snd ?rs)"
    and len: "length ?rs = length ?ps"
    by blast+
  from th have each: "\<forall>j < length ?ps.
                   (match_string_range (referencedTarget (?ps ! j)) = None \<longrightarrow> ?rs ! j = (?ps ! j, True))
                 \<and> (\<forall>xp st len s1.
                       match_string_range (referencedTarget (?ps ! j)) = Some (xp, st, len)
                       \<and> cache_getXML sample_env (referencedUrl (?ps ! j)) (snd (rewrite_ptrs sample_env (take j ?ps) ?sk)) = (None, s1)
                       \<longrightarrow> ?rs ! j = (?ps ! j, False))
                 \<and> (\<forall>xp st len doc s1.
                       match_string_range (referencedTarget (?ps ! j)) = Some (xp, st, len)
                       \<and> cache_getXML sample_env (referencedUrl (?ps ! j)) (snd (rewrite_ptrs sample_env (take j ?ps) ?sk)) = (Some doc, s1)
                       \<longrightarrow>
                         (\<forall>el. evaluateXPath sample_env s1 doc (remove_tei xp) = Some [ElementNode el] \<longrightarrow>
                            ?rs ! j =
                              ((?ps ! j)\<lparr>referencedTarget :=
                                  (case getNamedItem (attrs s1) el ''xml:id'' of
                                     Some v \<Rightarrow> v
                                   | None \<Rightarrow> ''mock-id-'' @ string_of_nat (mockElementCount s1))\<rparr>,
                               True))
                       \<and> (\<forall>ns. evaluateXPath sample_env s1 doc (remove_tei xp) = Some ns \<and> length ns \<noteq> 1 \<longrightarrow>
                            ?rs ! j = (?ps ! j, False))
                       \<and> (evaluateXPath sample_env s1 doc (remove_tei xp) = Some [OtherNode] \<longrightarrow>
                            ?rs ! j = (?ps ! j, False))
                       \<and> (evaluateXPath sample_env s1 doc (remove_tei xp) = None \<longrightarrow>
                            ?rs ! j = (?ps ! j, False)))"
    by blast
  have l0: "(0::nat) < length ?ps" and l1: "(1::nat) < length ?ps" by simp_all
  have m0: "match_string_range (referencedTarget (?ps ! 0)) = Some (''//tei:body'', ''0'', ''10'')"
    by code_simp
  have m1: "match_string_range (referencedTarget (?ps ! 1)) = Some (''//tei:p'', ''0'', ''5'')"
    by code_simp
  have "cache ?s0 (referencedUrl (?ps ! 0)) = Some sample_witness" by code_simp
  then have g0: "cache_getXML sample_env (referencedUrl (?ps ! 0)) ?s0 = (Some sample_witness, ?s0)"
    by (rule cache_getXML_hit)
  have "cache ?s1 (referencedUrl (?ps ! 1)) = Some sample_witness" by code_simp
  then have g1: "cache_getXML sample_env (referencedUrl (?ps ! 1)) ?s1 = (Some sample_witness, ?s1)"
    by (rule cache_getXML_hit)
  have e0: "evaluateXPath sample_env ?s0 sample_witness (remove_tei ''//tei:body'') = Some [ElementNode 20]"
    by code_simp
  have e1: "evaluateXPath sample_env ?s1 sample_witness (remove_tei ''//tei:p'')
      = Some [ElementNode 21, ElementNode 22] \<and> length [ElementNode 21, ElementNode 22] \<noteq> 1"
    by code_simp
  have i0: "getNamedItem (attrs ?s0) 20 ''xml:id'' = None" by code_simp
  have c0: "mockElementCount ?s0 = 0" by code_simp
  have sn: "string_of_nat 0 = ''0''" by code_simp
  from each [rule_format, OF l0, THEN conjunct2, THEN conjunct2, rule_format, OF conjI [OF m0 g0],
      THEN conjunct1, rule_format, OF e0]
  have r0: "?rs ! 0 = (?p0\<lparr>referencedTarget := ''mock-id-0''\<rparr>, True)"
    unfolding i0 c0 sn by simp
  from each [rule_format, OF l1, THEN conjunct2, THEN conjunct2, rule_format, OF conjI [OF m1 g1],
      THEN conjunct2, THEN conjunct1, rule_format, OF e1]
  have r1: "?rs ! 1 = (?p1, False)" by simp
  from len have "length ?rs = 2" by simp
  then have "?rs = [?rs ! 0, ?rs ! 1]" by (rule list_of_two)
  with r0 r1 have "?rs = [(?p0\<lparr>referencedTarget := ''mock-id-0''\<rparr>, True), (?p1, False)]" by simp
  with kept have k0: "pointers (fst (rewrite_apps sample_env ?apps ?t) ! 0) = [?p0\<lparr>referencedTarget := ''mock-id-0''\<rparr>]"
    by simp
  from n have "length (fst (rewrite_apps sample_env ?apps ?t)) = 1" by simp
  then obtain a where one: "fst (rewrite_apps sample_env ?apps ?t) = [a]"
    by (cases "fst (rewrite_apps sample_env ?apps ?t)") auto
  with k0 have "map pointers (fst (rewrite_apps sample_env ?apps ?t)) = [[?p0\<lparr>referencedTarget := ''mock-id-0''\<rparr>]]"
    by simp
  with none apps' show ?thesis by simp
qed

text \<open>
  C6 as stated fails: an apparatus entry with two range pointers, the first with an
  XPath that gives two nodes, the second with \<^verbatim>\<open>count(//tei:p)\<close>, which the engine
  of the small world refuses (in a browser its result is a number, and iterating it
  throws). The second pointer is another pointer of the same entry, its XPath gives
  neither no node nor several, and it is dropped too.
\<close>

theorem other_pointer_dropped:
  "\<not> (\<forall>E t apps k i xp st len doc s1 ns.
        priv_apps t = Some apps \<and> k < length apps \<and> i < length (pointers (apps ! k))
        \<and> match_string_range (referencedTarget (pointers (apps ! k) ! i)) = Some (xp, st, len)
        \<and> cache_getXML E (referencedUrl (pointers (apps ! k) ! i))
             (snd (rewrite_ptrs E (take i (pointers (apps ! k))) (snd (rewrite_apps E (take k apps) t))))
           = (Some doc, s1)
        \<and> evaluateXPath E s1 doc (remove_tei xp) = Some ns \<and> length ns \<noteq> 1
        \<longrightarrow> fst (rewriteStringRanges E t) = None
           \<and> ptrElement (pointers (apps ! k) ! i)
                \<notin> set (map ptrElement (pointers (fst (rewrite_apps E apps t) ! k)))
           \<and> (\<forall>j < length (pointers (apps ! k)). j \<noteq> i \<longrightarrow>
                 ptrElement (pointers (apps ! k) ! j)
                   \<in> set (map ptrElement (pointers (fst (rewrite_apps E apps t) ! k)))))"
proof
  let ?p0 = "\<lparr>ptrElement = 4, groupId = ''G1'', edition = None, referencedUrl = ''doc.xml'',
                referencedTarget = ''string-range(//tei:p,0,5)'', dereferenced = None\<rparr>"
  let ?p1 = "\<lparr>ptrElement = 6, groupId = ''G1'', edition = None, referencedUrl = ''doc.xml'',
                referencedTarget = ''string-range(count(//tei:p),0,5)'', dereferenced = None\<rparr>"
  let ?apps = "[\<lparr>id_app = ''A1'', n_app = None, element = 1, pointers = [?p0, ?p1]\<rparr>]"
  let ?t = "(sample_state ''doc.xml#string-range(//tei:p,0,5)'' ''doc.xml#string-range(count(//tei:p),0,5)'' ''doc.xml#w1'')
            \<lparr>cache := [''doc.xml'' \<mapsto> sample_witness], priv_apps := Some ?apps\<rparr>"
  let ?s0 = "snd (rewrite_ptrs sample_env (take 0 (pointers (?apps ! 0))) (snd (rewrite_apps sample_env (take 0 ?apps) ?t)))"
  assume all: "\<forall>E t apps k i xp st len doc s1 ns.
        priv_apps t = Some apps \<and> k < length apps \<and> i < length (pointers (apps ! k))
        \<and> match_string_range (referencedTarget (pointers (apps ! k) ! i)) = Some (xp, st, len)
        \<and> cache_getXML E (referencedUrl (pointers (apps ! k) ! i))
             (snd (rewrite_ptrs E (take i (pointers (apps ! k))) (snd (rewrite_apps E (take k apps) t))))
           = (Some doc, s1)
        \<and> evaluateXPath E s1 doc (remove_tei xp) = Some ns \<and> length ns \<noteq> 1
        \<longrightarrow> fst (rewriteStringRanges E t) = None
           \<and> ptrElement (pointers (apps ! k) ! i)
                \<notin> set (map ptrElement (pointers (fst (rewrite_apps E apps t) ! k)))
           \<and> (\<forall>j < length (pointers (apps ! k)). j \<noteq> i \<longrightarrow>
                 ptrElement (pointers (apps ! k) ! j)
                   \<in> set (map ptrElement (pointers (fst (rewrite_apps E apps t) ! k))))"
  have 1: "priv_apps ?t = Some ?apps" by simp
  have 2: "(0::nat) < length ?apps" by simp
  have 3: "(0::nat) < length (pointers (?apps ! 0))" by simp
  have 4: "match_string_range (referencedTarget (pointers (?apps ! 0) ! 0)) = Some (''//tei:p'', ''0'', ''5'')"
    by code_simp
  have "cache ?s0 (referencedUrl (pointers (?apps ! 0) ! 0)) = Some sample_witness" by code_simp
  then have 5: "cache_getXML sample_env (referencedUrl (pointers (?apps ! 0) ! 0)) ?s0 = (Some sample_witness, ?s0)"
    by (rule cache_getXML_hit)
  have 6: "evaluateXPath sample_env ?s0 sample_witness (remove_tei ''//tei:p'') = Some [ElementNode 21, ElementNode 22]"
    by code_simp
  have 7: "length [ElementNode 21, ElementNode 22] \<noteq> 1" by simp
  from all [rule_format, of ?t ?apps 0 0 "''//tei:p''" "''0''" "''5''" sample_env sample_witness ?s0
      "[ElementNode 21, ElementNode 22]"] 1 2 3 4 5 6 7
  have rest: "\<forall>j < length (pointers (?apps ! 0)). j \<noteq> 0 \<longrightarrow>
                 ptrElement (pointers (?apps ! 0) ! j)
                   \<in> set (map ptrElement (pointers (fst (rewrite_apps sample_env ?apps ?t) ! 0)))"
    by blast
  have l1: "(1::nat) < length (pointers (?apps ! 0))" and n1: "(1::nat) \<noteq> 0" by simp_all
  from rest [rule_format, OF l1 n1]
  have "ptrElement (pointers (?apps ! 0) ! 1)
                   \<in> set (map ptrElement (pointers (fst (rewrite_apps sample_env ?apps ?t) ! 0)))" .
  moreover have "ptrElement (pointers (?apps ! 0) ! 1)
                   \<notin> set (map ptrElement (pointers (fst (rewrite_apps sample_env ?apps ?t) ! 0)))"
    by code_simp
  ultimately show False by blast
qed

end
